theory Spec2Isabelle
  imports Main "HOL-Library.Char_ord" "HOL-Library.List_Lexorder"
begin

section \<open>Strings of the JavaScript runtime\<close>

text \<open>
  A JavaScript string is modelled as a \<^typ>\<open>string\<close>: a list of code units, each below 256
  (the Latin-1 range, where one code unit is one character). On these code units
  \<^verbatim>\<open>String.prototype.toLowerCase\<close> maps \<^verbatim>\<open>A-Z\<close> and the accented capitals
  \<^verbatim>\<open>U+00C0..U+00DE\<close> (without the multiplication sign \<^verbatim>\<open>U+00D7\<close>) to the code unit 32
  above, and leaves every other code unit alone. Code units above 255 are outside the model.
\<close>

definition toLowerCase_unit :: "char \<Rightarrow> char" where
  "toLowerCase_unit c =
     (let n = (of_char c :: nat)
      in if (65 \<le> n \<and> n \<le> 90) \<or> (192 \<le> n \<and> n \<le> 222 \<and> n \<noteq> 215)
         then char_of (n + 32) else c)"

definition toLowerCase :: "string \<Rightarrow> string" where
  "toLowerCase s = map toLowerCase_unit s"

text \<open>The character class \<^verbatim>\<open>[a-z0-9]\<close> of the regular expression \<^verbatim>\<open>/[^a-z0-9]/g\<close>.\<close>

definition in_az09 :: "char \<Rightarrow> bool" where
  "in_az09 c = (let n = (of_char c :: nat) in (97 \<le> n \<and> n \<le> 122) \<or> (48 \<le> n \<and> n \<le> 57))"

text \<open>
  \<^verbatim>\<open>tagName.toLowerCase().replace(/[^a-z0-9]/g, '-')\<close>: the slug of a tag name, written
  inline in \<^verbatim>\<open>createPost\<close>, \<^verbatim>\<open>updatePost\<close> and \<^verbatim>\<open>createTag\<close>.
\<close>

definition slugify :: "string \<Rightarrow> string" where
  "slugify tagName = map (\<lambda>c. if in_az09 c then c else CHR ''-'') (toLowerCase tagName)"

text \<open>
  White space and line terminators of ECMAScript among the code units below 256:
  TAB, LF, VT, FF, CR, SPACE and NO-BREAK SPACE. \<^verbatim>\<open>String.prototype.trim\<close> removes them at
  both ends, \<^verbatim>\<open>parseInt\<close> skips them at the front.
\<close>

definition isWhiteSpace :: "char \<Rightarrow> bool" where
  "isWhiteSpace c = (let n = (of_char c :: nat) in (9 \<le> n \<and> n \<le> 13) \<or> n = 32 \<or> n = 160)"

definition trim :: "string \<Rightarrow> string" where
  "trim s = rev (dropWhile isWhiteSpace (rev (dropWhile isWhiteSpace s)))"

text \<open>
  \<^verbatim>\<open>s.split(sep)\<close> for a separator of one code unit: the pieces between the separators, in
  order; the result is never empty (\<^verbatim>\<open>"".split(",")\<close> is \<^verbatim>\<open>[""]\<close>).
\<close>

fun split :: "char \<Rightarrow> string \<Rightarrow> string list" where
  "split sep [] = [[]]"
| "split sep (c # cs) =
     (let r = split sep cs in if c = sep then [] # r else (c # hd r) # tl r)"

definition startsWith :: "string \<Rightarrow> string \<Rightarrow> bool" where
  "startsWith s p = (take (length p) s = p)"

text \<open>
  \<^verbatim>\<open>parseInt(string, radix)\<close> as ECMAScript defines it. \<open>None\<close> is NaN. The radix 0 stands
  for an omitted radix (\<^verbatim>\<open>ToInt32(undefined)\<close> is 0): the base is then 10, or 16 after a
  \<^verbatim>\<open>0x\<close> prefix. The result is an exact integer; the runtime's number is the nearest
  double, which is the same value below \<open>2^53\<close>. The sign of a zero is not kept:
  \<^verbatim>\<open>-0\<close> is as falsy as \<^verbatim>\<open>0\<close>.
\<close>

definition digitValue :: "char \<Rightarrow> nat option" where
  "digitValue c =
     (let n = (of_char c :: nat)
      in if 48 \<le> n \<and> n \<le> 57 then Some (n - 48)
         else if 97 \<le> n \<and> n \<le> 122 then Some (n - 87)
         else if 65 \<le> n \<and> n \<le> 90 then Some (n - 55)
         else None)"

definition isRadixDigit :: "nat \<Rightarrow> char \<Rightarrow> bool" where
  "isRadixDigit R c = (case digitValue c of None \<Rightarrow> False | Some d \<Rightarrow> d < R)"

definition digitsValue :: "nat \<Rightarrow> string \<Rightarrow> int" where
  "digitsValue R ds = foldl (\<lambda>acc c. acc * int R + int (the (digitValue c))) 0 ds"

definition parseInt :: "string \<Rightarrow> nat \<Rightarrow> int option" where
  "parseInt inputString radix =
     (let S = dropWhile isWhiteSpace inputString;
          sign = (if S \<noteq> [] \<and> hd S = CHR ''-'' then - 1 else (1::int));
          S1 = (if S \<noteq> [] \<and> (hd S = CHR ''+'' \<or> hd S = CHR ''-'') then tl S else S);
          stripPrefix = (radix = 0 \<or> radix = 16);
          R0 = (if radix = 0 then 10 else radix);
          hex = (stripPrefix \<and> (startsWith S1 ''0x'' \<or> startsWith S1 ''0X''));
          S2 = (if hex then drop 2 S1 else S1);
          R = (if hex then 16 else R0);
          Z = takeWhile (isRadixDigit R) S2
      in if radix \<noteq> 0 \<and> (radix < 2 \<or> 36 < radix) then None
         else if Z = [] then None
         else Some (sign * digitsValue R Z))"

section \<open>Data model\<close>

text \<open>
  The documents of the two collections, with the fields of \<^verbatim>\<open>ITag\<close> and \<^verbatim>\<open>IPost\<close>. An
  ObjectId is a natural number. The timestamps of a tag are never read and are left out.
\<close>

type_synonym objectId = nat

text \<open>
  The id in the path of a request (\<^verbatim>\<open>req.params.id\<close>) is any string. \<^verbatim>\<open>Post.findById\<close>
  casts it: a string that is a well-formed ObjectId denotes that id, any other string makes
  the cast throw a \<^verbatim>\<open>CastError\<close>. Which strings are well-formed is Mongoose's business; the
  model takes the path id with the result of its cast.
\<close>

datatype pathId = ObjectId objectId | NotObjectId string

record tag =
  tag_id :: objectId
  tag_name :: string
  tag_slug :: string

record post =
  post_id :: objectId
  title :: string
  description :: string
  imageUrl :: string
  tags :: "objectId list"
  createdAt :: nat
  updatedAt :: nat

text \<open>The fields of an uploaded file (\<^verbatim>\<open>express-fileupload\<close>) that the code reads.\<close>

record uploadedFile =
  mimetype :: string
  file_size :: nat
  file_data :: string

text \<open>
  The calls that reach the blob service and the writes that reach the two collections are
  recorded, in the order in which they happen, in the \<open>trace\<close> of the world. A call to the
  blob service is recorded when it is made, whether it then succeeds or fails.
\<close>

datatype event =
    CloudUpload uploadedFile
  | CloudDestroy string
  | TagInsert objectId
  | PostInsert objectId
  | PostUpdate objectId
  | PostDelete objectId

record world =
  tagStore :: "tag list"
  postStore :: "post list"
  nextId :: objectId
  trace :: "event list"

text \<open>
  The blob service (Cloudinary) is a collaborator outside the repository; its two operations
  are parameters. \<open>uploader_upload\<close> gives the \<^verbatim>\<open>secure_url\<close> of the stored image, or
  \<open>None\<close> when the call throws. \<open>uploader_destroy\<close> tells whether the result of
  \<^verbatim>\<open>destroy\<close> is \<^verbatim>\<open>'ok'\<close>.
\<close>

record cloudinary =
  uploader_upload :: "uploadedFile \<Rightarrow> string option"
  uploader_destroy :: "string \<Rightarrow> bool"

text \<open>What a \<^verbatim>\<open>catch\<close> block of a controller can receive.\<close>

datatype error =
    UploadFailed
  | DeleteFailed
  | TagValidation
  | TagDuplicateKey
  | PostValidation
  | QueryRejected
  | CastError

text \<open>
  The HTTP response: the status with the \<^verbatim>\<open>data\<close> of a success, the \<^verbatim>\<open>message\<close> of a client
  error, or the error caught for a 500. The specification's \<^verbatim>\<open>ValidationError\<close> is the 400,
  its \<^verbatim>\<open>NotFoundError\<close> the 404, its \<^verbatim>\<open>ConflictError\<close> the 409.
\<close>

datatype 'a response =
    Ok200 'a
  | Created201 'a
  | BadRequest400 string
  | NotFound404 string
  | Conflict409 string
  | ServerError500 error

text \<open>
  The \<^verbatim>\<open>tags\<close> field of a request body: absent, one string, an array of strings, or some
  other JSON value.
\<close>

datatype rawTags = TagsAbsent | TagsString string | TagsArray "string list" | TagsOther

record postBody =
  body_title :: "string option"
  body_description :: "string option"
  body_tags :: rawTags
  body_image :: "uploadedFile option"

text \<open>
  The query string of a listing and of a search. A parameter is absent or a string; a
  parameter that Express parses to an array or an object is outside the model.
\<close>

record listQuery =
  query_page :: "string option"
  query_limit :: "string option"
  query_sortBy :: "string option"
  query_sortOrder :: "string option"
  query_tags :: "string option"

record searchQuery =
  query_q :: "string option"
  search_page :: "string option"
  search_limit :: "string option"

text \<open>
  The JSON envelope of a listing. A number that is NaN or infinite is written \<^verbatim>\<open>null\<close> by
  \<^verbatim>\<open>JSON.stringify\<close>: \<open>None\<close>.
\<close>

record 'a envelope =
  env_data :: "'a list"
  env_page :: "int option"
  env_limit :: "int option"
  env_total :: nat
  env_pages :: "int option"

type_synonym postView = "post \<times> tag list"

section \<open>The collections (Mongoose models)\<close>

text \<open>
  The two collections are lists in insertion order. The database is always reachable: an
  operation fails only when the schema or the server rejects what it is given.

  Mongoose casts the values of a query filter by the schema of their path, and the cast runs
  the path's setters: a slug in a filter is lower-cased (\<^verbatim>\<open>lowercase: true\<close> of
  \<^verbatim>\<open>TagSchema.slug\<close>) before it is compared with the stored slugs.
  \<^verbatim>\<open>Tag.findOne({ slug })\<close>: the first tag of the collection whose slug is \<open>slug\<close> lower-cased.
  \<^verbatim>\<open>Tag.find({ slug: { $in: slugs } })\<close>: all tags whose slug is one of \<open>slugs\<close>, each
  lower-cased.
\<close>

definition Tag_findOne :: "string \<Rightarrow> tag list \<Rightarrow> tag option" where
  "Tag_findOne slug ts = find (\<lambda>t. tag_slug t = toLowerCase slug) ts"

definition Tag_find_in :: "string list \<Rightarrow> tag list \<Rightarrow> tag list" where
  "Tag_find_in slugs ts = filter (\<lambda>t. tag_slug t \<in> set (map toLowerCase slugs)) ts"

text \<open>
  \<^verbatim>\<open>Tag.create({ name, slug })\<close> under \<^verbatim>\<open>TagSchema\<close>: the setters (\<^verbatim>\<open>trim\<close> on the name,
  \<^verbatim>\<open>lowercase\<close> on the slug), the validators (both required, which an empty string fails;
  the name at most 50 code units) and the two unique indexes. A rejected document leaves the
  world as it was.
\<close>

definition Tag_create :: "string \<Rightarrow> string \<Rightarrow> world \<Rightarrow> (error + tag) \<times> world" where
  "Tag_create name slug w =
     (let name' = trim name; slug' = toLowerCase slug
      in if name' = [] \<or> 50 < length name' \<or> slug' = [] then (Inl TagValidation, w)
         else if \<exists>t\<in>set (tagStore w). tag_name t = name' \<or> tag_slug t = slug'
         then (Inl TagDuplicateKey, w)
         else let t = \<lparr>tag_id = nextId w, tag_name = name', tag_slug = slug'\<rparr>
              in (Inr t, w\<lparr>tagStore := tagStore w @ [t], nextId := Suc (nextId w),
                             trace := trace w @ [TagInsert (nextId w)]\<rparr>))"

text \<open>
  The setters and validators of \<^verbatim>\<open>PostSchema\<close> on the three string paths: the title is
  trimmed; title, description and image URL are required; the title has at most 200 code
  units and the description at most 5000. The result is the title as stored.
\<close>

definition Post_validate :: "string \<Rightarrow> string \<Rightarrow> string \<Rightarrow> string option" where
  "Post_validate ttl descr url =
     (let title' = trim ttl
      in if title' = [] \<or> 200 < length title' \<or> descr = [] \<or> 5000 < length descr \<or> url = []
         then None else Some title')"

definition Post_create ::
  "string \<Rightarrow> string \<Rightarrow> string \<Rightarrow> objectId list \<Rightarrow> nat \<Rightarrow> world \<Rightarrow> (error + post) \<times> world" where
  "Post_create ttl descr url tagIds now w =
     (case Post_validate ttl descr url of
        None \<Rightarrow> (Inl PostValidation, w)
      | Some title' \<Rightarrow>
          let p = \<lparr>post_id = nextId w, title = title', description = descr, imageUrl = url,
                   tags = tagIds, createdAt = now, updatedAt = now\<rparr>
          in (Inr p, w\<lparr>postStore := postStore w @ [p], nextId := Suc (nextId w),
                         trace := trace w @ [PostInsert (nextId w)]\<rparr>))"

definition Post_findById :: "objectId \<Rightarrow> post list \<Rightarrow> post option" where
  "Post_findById postId ps = find (\<lambda>p. post_id p = postId) ps"

fun updateFirst :: "('a \<Rightarrow> bool) \<Rightarrow> ('a \<Rightarrow> 'a) \<Rightarrow> 'a list \<Rightarrow> 'a list" where
  "updateFirst P f [] = []"
| "updateFirst P f (x # xs) = (if P x then f x # xs else x # updateFirst P f xs)"

fun removeFirst :: "('a \<Rightarrow> bool) \<Rightarrow> 'a list \<Rightarrow> 'a list" where
  "removeFirst P [] = []"
| "removeFirst P (x # xs) = (if P x then xs else x # removeFirst P xs)"

text \<open>
  \<^verbatim>\<open>Post.findByIdAndUpdate(postId, {title, description, imageUrl, tags},
  { new: true, runValidators: true })\<close>: the update validators run on the four paths that
  are set; a rejected update writes nothing. The result is the document after the update, or
  \<open>None\<close> when no document has this id.
\<close>

definition Post_findByIdAndUpdate ::
  "objectId \<Rightarrow> string \<Rightarrow> string \<Rightarrow> string \<Rightarrow> objectId list \<Rightarrow> nat \<Rightarrow> world
     \<Rightarrow> (error + post option) \<times> world" where
  "Post_findByIdAndUpdate postId ttl descr url tagIds now w =
     (case Post_validate ttl descr url of
        None \<Rightarrow> (Inl PostValidation, w)
      | Some title' \<Rightarrow>
          (case Post_findById postId (postStore w) of
             None \<Rightarrow> (Inr None, w)
           | Some p \<Rightarrow>
               let p' = p\<lparr>title := title', description := descr, imageUrl := url,
                          tags := tagIds, updatedAt := now\<rparr>
               in (Inr (Some p'),
                   w\<lparr>postStore := updateFirst (\<lambda>p. post_id p = postId) (\<lambda>_. p') (postStore w),
                      trace := trace w @ [PostUpdate postId]\<rparr>)))"

definition Post_findByIdAndDelete :: "objectId \<Rightarrow> world \<Rightarrow> world" where
  "Post_findByIdAndDelete postId w =
     (case Post_findById postId (postStore w) of
        None \<Rightarrow> w
      | Some p \<Rightarrow> w\<lparr>postStore := removeFirst (\<lambda>p. post_id p = postId) (postStore w),
                     trace := trace w @ [PostDelete postId]\<rparr>)"

text \<open>
  \<^verbatim>\<open>populate('tags', 'name slug')\<close>: each tag id replaced by its tag; an id with no tag is
  dropped.
\<close>

definition populate :: "tag list \<Rightarrow> post \<Rightarrow> postView" where
  "populate ts p = (p, List.map_filter (\<lambda>i. find (\<lambda>t. tag_id t = i) ts) (tags p))"

text \<open>
  The filter of a query on posts. \<open>None\<close> is the empty filter \<^verbatim>\<open>{}\<close>; \<open>Some ids\<close> is
  \<^verbatim>\<open>{ tags: { $in: ids } }\<close>, which a post matches when one of its tags is among \<open>ids\<close>.
\<close>

definition Post_matches :: "objectId list option \<Rightarrow> post \<Rightarrow> bool" where
  "Post_matches flt p =
     (case flt of None \<Rightarrow> True | Some ids \<Rightarrow> (\<exists>t\<in>set (tags p). t \<in> set ids))"

text \<open>
  \<^verbatim>\<open>.sort({ [sortBy]: sortOrder })\<close> on the scalar paths of a post, strings compared code unit
  by code unit. Any other path leaves the order of the collection.
\<close>

definition sortPosts :: "string \<Rightarrow> int \<Rightarrow> post list \<Rightarrow> post list" where
  "sortPosts sortBy sortOrder ps =
     (let up = (\<lambda>xs. if sortOrder = 1 then xs else rev xs)
      in if sortBy = ''title'' then up (sort_key title ps)
         else if sortBy = ''description'' then up (sort_key description ps)
         else if sortBy = ''imageUrl'' then up (sort_key imageUrl ps)
         else if sortBy = ''createdAt'' then up (sort_key createdAt ps)
         else if sortBy = ''updatedAt'' then up (sort_key updatedAt ps)
         else if sortBy = ''_id'' then up (sort_key post_id ps)
         else ps)"

text \<open>
  \<^verbatim>\<open>.skip(skip).limit(limit)\<close>. The server rejects a skip that is negative or not a number
  and a limit that is not a number; the driver sends a negative limit as its absolute
  value; the limit 0 is no limit.
\<close>

definition skipLimit :: "int option \<Rightarrow> int option \<Rightarrow> 'a list \<Rightarrow> error + 'a list" where
  "skipLimit skip limit xs =
     (case (skip, limit) of
        (Some s, Some l) \<Rightarrow>
          if s < 0 then Inl QueryRejected
          else if l = 0 then Inr (drop (nat s) xs)
          else Inr (take (nat \<bar>l\<bar>) (drop (nat s) xs))
      | _ \<Rightarrow> Inl QueryRejected)"

section \<open>The blob service (\<^verbatim>\<open>services/cloudStorage\<close>)\<close>

definition uploadToCloud :: "cloudinary \<Rightarrow> uploadedFile \<Rightarrow> world \<Rightarrow> string option \<times> world" where
  "uploadToCloud cloud file w =
     (if \<not> startsWith (mimetype file) ''image/'' then (None, w)
      else (uploader_upload cloud file, w\<lparr>trace := trace w @ [CloudUpload file]\<rparr>))"

text \<open>
  The public id that \<^verbatim>\<open>deleteFromCloud\<close> extracts from an image URL: the last piece of the
  path, up to its first dot, under the folder \<^verbatim>\<open>posts-api\<close>.
\<close>

definition fullPublicId :: "string \<Rightarrow> string" where
  "fullPublicId url =
     (let urlParts = split CHR ''/'' url;
          publicIdWithExtension = last urlParts;
          publicId = hd (split CHR ''.'' publicIdWithExtension)
      in ''posts-api/'' @ publicId)"

definition deleteFromCloud :: "cloudinary \<Rightarrow> string \<Rightarrow> world \<Rightarrow> bool \<times> world" where
  "deleteFromCloud cloud url w =
     (uploader_destroy cloud (fullPublicId url),
      w\<lparr>trace := trace w @ [CloudDestroy (fullPublicId url)]\<rparr>)"

section \<open>The posts controller\<close>

text \<open>\<^verbatim>\<open>!x\<close> for a value that is a string or absent, and \<^verbatim>\<open>x || d\<close>.\<close>

definition falsy :: "string option \<Rightarrow> bool" where
  "falsy x = (case x of None \<Rightarrow> True | Some s \<Rightarrow> s = [])"

definition orElse :: "string option \<Rightarrow> string \<Rightarrow> string" where
  "orElse x d = (case x of None \<Rightarrow> d | Some s \<Rightarrow> if s = [] then d else s)"

text \<open>
  The body of the loop \<^verbatim>\<open>for (const tagName of tagArray)\<close>: the slug, the lookup by slug, the
  creation when no tag has the slug. The result is the tag's id.
\<close>

definition resolveTag :: "string \<Rightarrow> world \<Rightarrow> (error + objectId) \<times> world" where
  "resolveTag tagName w =
     (let slug = slugify tagName
      in case Tag_findOne slug (tagStore w) of
           Some t \<Rightarrow> (Inr (tag_id t), w)
         | None \<Rightarrow>
             (case Tag_create tagName slug w of
                (Inl e, w') \<Rightarrow> (Inl e, w')
              | (Inr t, w') \<Rightarrow> (Inr (tag_id t), w')))"

text \<open>
  The loop itself, with \<open>tagIds\<close> the ids pushed so far. An error leaves the loop; the tags
  created before it stay in the collection.
\<close>

fun resolveTags :: "string list \<Rightarrow> objectId list \<Rightarrow> world \<Rightarrow> (error + objectId list) \<times> world" where
  "resolveTags [] tagIds w = (Inr tagIds, w)"
| "resolveTags (tagName # rest) tagIds w =
     (case resolveTag tagName w of
        (Inl e, w') \<Rightarrow> (Inl e, w')
      | (Inr i, w') \<Rightarrow> resolveTags rest (tagIds @ [i]) w')"

text \<open>
  \<^verbatim>\<open>tagArray\<close>: the names the loop runs over. \<^verbatim>\<open>if (tags)\<close> fails for an absent field and
  for the empty string; an array is taken as it is, a string is split at the commas and each
  piece trimmed, any other value gives no names.
\<close>

fun tagArray :: "rawTags \<Rightarrow> string list" where
  "tagArray TagsAbsent = []"
| "tagArray (TagsString s) = (if s = [] then [] else map trim (split CHR '','' s))"
| "tagArray (TagsArray names) = names"
| "tagArray TagsOther = []"

text \<open>The block \<^verbatim>\<open>// Process tags\<close> of \<^verbatim>\<open>createPost\<close> and of \<^verbatim>\<open>updatePost\<close>.\<close>

definition processTags :: "rawTags \<Rightarrow> world \<Rightarrow> (error + objectId list) \<times> world" where
  "processTags rawTags w = resolveTags (tagArray rawTags) [] w"

definition createPost ::
  "cloudinary \<Rightarrow> nat \<Rightarrow> postBody \<Rightarrow> world \<Rightarrow> postView response \<times> world" where
  "createPost cloud now body w =
     (if falsy (body_title body) \<or> falsy (body_description body)
      then (BadRequest400 ''Title and description are required'', w)
      else
        (case body_image body of
           None \<Rightarrow> (BadRequest400 ''Image is required'', w)
         | Some imageFile \<Rightarrow>
             (if \<not> startsWith (mimetype imageFile) ''image/''
              then (BadRequest400 ''Only image files are allowed'', w)
              else if file_size imageFile > 5 * 1024 * 1024
              then (BadRequest400 ''Image size must be less than 5MB'', w)
              else
                (case uploadToCloud cloud imageFile w of
                   (None, w1) \<Rightarrow> (ServerError500 UploadFailed, w1)
                 | (Some url, w1) \<Rightarrow>
                     (case processTags (body_tags body) w1 of
                        (Inl e, w2) \<Rightarrow> (ServerError500 e, w2)
                      | (Inr tagIds, w2) \<Rightarrow>
                          (case Post_create (the (body_title body))
                                  (the (body_description body)) url tagIds now w2 of
                             (Inl e, w3) \<Rightarrow> (ServerError500 e, w3)
                           | (Inr p, w3) \<Rightarrow>
                               (Created201 (populate (tagStore w3) p), w3)))))))"

definition deletePost :: "cloudinary \<Rightarrow> pathId \<Rightarrow> world \<Rightarrow> unit response \<times> world" where
  "deletePost cloud rawId w =
     (case rawId of
        NotObjectId s \<Rightarrow> (ServerError500 CastError, w)
      | ObjectId postId \<Rightarrow>
          (case Post_findById postId (postStore w) of
             None \<Rightarrow> (NotFound404 ''Post not found'', w)
           | Some p \<Rightarrow>
               (case deleteFromCloud cloud (imageUrl p) w of
                  (False, w1) \<Rightarrow> (ServerError500 DeleteFailed, w1)
                | (True, w1) \<Rightarrow> (Ok200 (), Post_findByIdAndDelete postId w1))))"

text \<open>
  The block \<^verbatim>\<open>if (imageFile) { ... }\<close> of \<^verbatim>\<open>updatePost\<close>, which sets \<^verbatim>\<open>imageUrl\<close>: the response
  when it ends the request, or else the image URL to store.
\<close>

definition newImageUrl ::
  "cloudinary \<Rightarrow> post \<Rightarrow> uploadedFile option \<Rightarrow> world
     \<Rightarrow> (postView option response + string) \<times> world" where
  "newImageUrl cloud p img w =
     (case img of
        None \<Rightarrow> (Inr (imageUrl p), w)
      | Some imageFile \<Rightarrow>
          (if \<not> startsWith (mimetype imageFile) ''image/''
           then (Inl (BadRequest400 ''Only image files are allowed''), w)
           else if file_size imageFile > 5 * 1024 * 1024
           then (Inl (BadRequest400 ''Image size must be less than 5MB''), w)
           else
             (case uploadToCloud cloud imageFile w of
                (None, w1) \<Rightarrow> (Inl (ServerError500 UploadFailed), w1)
              | (Some url, w1) \<Rightarrow>
                  (case deleteFromCloud cloud (imageUrl p) w1 of
                     (False, w2) \<Rightarrow> (Inl (ServerError500 DeleteFailed), w2)
                   | (True, w2) \<Rightarrow> (Inr url, w2)))))"

definition updatePost ::
  "cloudinary \<Rightarrow> nat \<Rightarrow> pathId \<Rightarrow> postBody \<Rightarrow> world \<Rightarrow> postView option response \<times> world" where
  "updatePost cloud now rawId body w =
     (case rawId of
        NotObjectId s \<Rightarrow> (ServerError500 CastError, w)
      | ObjectId postId \<Rightarrow>
          (case Post_findById postId (postStore w) of
             None \<Rightarrow> (NotFound404 ''Post not found'', w)
           | Some p \<Rightarrow>
               (case newImageUrl cloud p (body_image body) w of
                  (Inl resp, w1) \<Rightarrow> (resp, w1)
                | (Inr url, w1) \<Rightarrow>
                    (case processTags (body_tags body) w1 of
                       (Inl e, w2) \<Rightarrow> (ServerError500 e, w2)
                     | (Inr tagIds, w2) \<Rightarrow>
                         (case Post_findByIdAndUpdate postId
                                 (orElse (body_title body) (title p))
                                 (orElse (body_description body) (description p))
                                 url
                                 (if length tagIds > 0 then tagIds else tags p)
                                 now w2 of
                            (Inl e, w3) \<Rightarrow> (ServerError500 e, w3)
                          | (Inr updatedPost, w3) \<Rightarrow>
                              (Ok200 (map_option (populate (tagStore w3)) updatedPost),
                               w3))))))"

text \<open>
  \<^verbatim>\<open>getPosts\<close>, lines 72 to 90: the page, the limit, the sort and the filter built from the
  query string. \<^verbatim>\<open>parseInt\<close> of an absent parameter reads the string \<^verbatim>\<open>undefined\<close>;
  \<^verbatim>\<open>n || d\<close> is \<open>d\<close> when \<open>n\<close> is NaN or 0.
\<close>

definition numberOr :: "int option \<Rightarrow> int \<Rightarrow> int" where
  "numberOr n d = (case n of None \<Rightarrow> d | Some k \<Rightarrow> if k = 0 then d else k)"

definition toString :: "string option \<Rightarrow> string" where
  "toString x = (case x of None \<Rightarrow> ''undefined'' | Some s \<Rightarrow> s)"

definition listPage :: "listQuery \<Rightarrow> int" where
  "listPage q = numberOr (parseInt (toString (query_page q)) 0) 1"

definition listLimit :: "listQuery \<Rightarrow> int" where
  "listLimit q = numberOr (parseInt (toString (query_limit q)) 0) 10"

definition listSkip :: "listQuery \<Rightarrow> int" where
  "listSkip q = (listPage q - 1) * listLimit q"

definition listSortBy :: "listQuery \<Rightarrow> string" where
  "listSortBy q = orElse (query_sortBy q) ''createdAt''"

definition listSortOrder :: "listQuery \<Rightarrow> int" where
  "listSortOrder q = (if query_sortOrder q = Some ''asc'' then 1 else - 1)"

definition listFilter :: "listQuery \<Rightarrow> tag list \<Rightarrow> objectId list option" where
  "listFilter q ts =
     (case query_tags q of
        None \<Rightarrow> None
      | Some tagFilter \<Rightarrow>
          if tagFilter = [] then None
          else Some (map tag_id (Tag_find_in (map trim (split CHR '','' tagFilter)) ts)))"

text \<open>\<^verbatim>\<open>Math.ceil(total / limit)\<close>: NaN or infinite when the limit is NaN or 0.\<close>

definition pagesOf :: "nat \<Rightarrow> int option \<Rightarrow> int option" where
  "pagesOf n limit =
     (case limit of
        None \<Rightarrow> None
      | Some l \<Rightarrow> if l = 0 then None else Some (- ((- int n) div l)))"

definition getPosts :: "listQuery \<Rightarrow> world \<Rightarrow> postView envelope response" where
  "getPosts q w =
     (let flt = listFilter q (tagStore w);
          found = filter (Post_matches flt) (postStore w)
      in case skipLimit (Some (listSkip q)) (Some (listLimit q))
                (sortPosts (listSortBy q) (listSortOrder q) found) of
           Inl e \<Rightarrow> ServerError500 e
         | Inr posts \<Rightarrow>
             Ok200 \<lparr>env_data = map (populate (tagStore w)) posts,
                    env_page = Some (listPage q), env_limit = Some (listLimit q),
                    env_total = length found,
                    env_pages = pagesOf (length found) (Some (listLimit q))\<rparr>)"

section \<open>The tags controller\<close>

definition createTag :: "string option \<Rightarrow> world \<Rightarrow> tag response \<times> world" where
  "createTag name w =
     (if falsy name then (BadRequest400 ''Tag name is required'', w)
      else let slug = slugify (the name)
           in case Tag_findOne slug (tagStore w) of
                Some existingTag \<Rightarrow> (Conflict409 ''Tag already exists'', w)
              | None \<Rightarrow>
                  (case Tag_create (the name) slug w of
                     (Inl e, w') \<Rightarrow> (ServerError500 e, w')
                   | (Inr t, w') \<Rightarrow> (Created201 t, w')))"

section \<open>The search controller\<close>

text \<open>
  \<^verbatim>\<open>{ $regex: query, $options: 'i' }\<close> hands the query to the server's regular expression
  engine (PCRE) as a pattern. The model runs the patterns made of \<^verbatim>\<open>.\<close> and of ASCII code
  units that are no metacharacter: such a code unit matches itself in either case, \<^verbatim>\<open>.\<close>
  matches any code unit but the line feed, and the pattern matches a text when it matches
  at some position. For every other pattern the engine is the parameter \<open>pcre\<close>, whose
  \<open>None\<close> is a pattern the engine rejects.
\<close>

definition isRegexMeta :: "char \<Rightarrow> bool" where
  "isRegexMeta c = (c \<in> set ''^$.[]|()?*+{}'' \<or> c = CHR 0x5C)"

datatype atom = Literal char | AnyChar

fun atomMatches :: "atom \<Rightarrow> char \<Rightarrow> bool" where
  "atomMatches (Literal c) d = (toLowerCase_unit c = toLowerCase_unit d)"
| "atomMatches AnyChar d = (d \<noteq> CHR 0x0A)"

fun matchesHere :: "atom list \<Rightarrow> string \<Rightarrow> bool" where
  "matchesHere [] str = True"
| "matchesHere (a # as) [] = False"
| "matchesHere (a # as) (d # ds) = (atomMatches a d \<and> matchesHere as ds)"

fun matchesSomewhere :: "atom list \<Rightarrow> string \<Rightarrow> bool" where
  "matchesSomewhere as [] = matchesHere as []"
| "matchesSomewhere as (d # ds) = (matchesHere as (d # ds) \<or> matchesSomewhere as ds)"

definition isSimplePattern :: "string \<Rightarrow> bool" where
  "isSimplePattern pattern =
     list_all (\<lambda>c. (of_char c :: nat) < 128 \<and> (c = CHR ''.'' \<or> \<not> isRegexMeta c)) pattern"

definition compileRegex ::
  "(string \<Rightarrow> (string \<Rightarrow> bool) option) \<Rightarrow> string \<Rightarrow> (string \<Rightarrow> bool) option" where
  "compileRegex pcre pattern =
     (if isSimplePattern pattern
      then Some (matchesSomewhere (map (\<lambda>c. if c = CHR ''.'' then AnyChar else Literal c) pattern))
      else pcre pattern)"

text \<open>Arithmetic on numbers that may be NaN.\<close>

definition numSub :: "int option \<Rightarrow> int option \<Rightarrow> int option" where
  "numSub a b = (case (a, b) of (Some x, Some y) \<Rightarrow> Some (x - y) | _ \<Rightarrow> None)"

definition numMul :: "int option \<Rightarrow> int option \<Rightarrow> int option" where
  "numMul a b = (case (a, b) of (Some x, Some y) \<Rightarrow> Some (x * y) | _ \<Rightarrow> None)"

text \<open>
  \<^verbatim>\<open>searchPosts\<close>, lines 57 to 69: the destructuring defaults \<^verbatim>\<open>page = '1'\<close> and
  \<^verbatim>\<open>limit = '10'\<close> stand in for an absent parameter only.
\<close>

definition searchPageNum :: "searchQuery \<Rightarrow> int option" where
  "searchPageNum q = parseInt (case search_page q of None \<Rightarrow> ''1'' | Some s \<Rightarrow> s) 10"

definition searchLimitNum :: "searchQuery \<Rightarrow> int option" where
  "searchLimitNum q = parseInt (case search_limit q of None \<Rightarrow> ''10'' | Some s \<Rightarrow> s) 10"

definition searchSkip :: "searchQuery \<Rightarrow> int option" where
  "searchSkip q = numMul (numSub (searchPageNum q) (Some 1)) (searchLimitNum q)"

definition searchPosts ::
  "(string \<Rightarrow> (string \<Rightarrow> bool) option) \<Rightarrow> searchQuery \<Rightarrow> world \<Rightarrow> post envelope response" where
  "searchPosts pcre q w =
     (if falsy (query_q q) then BadRequest400 ''Search query is required''
      else
        (case compileRegex pcre (the (query_q q)) of
           None \<Rightarrow> ServerError500 QueryRejected
         | Some re \<Rightarrow>
             (let found = filter (\<lambda>p. re (title p) \<or> re (description p)) (postStore w)
              in case skipLimit (searchSkip q) (searchLimitNum q) found of
                   Inl e \<Rightarrow> ServerError500 e
                 | Inr posts \<Rightarrow>
                     Ok200 \<lparr>env_data = posts, env_page = searchPageNum q,
                            env_limit = searchLimitNum q, env_total = length found,
                            env_pages = pagesOf (length found) (searchLimitNum q)\<rparr>)))"

text \<open>
  What the specification says the search matches: the query occurs in the text as a
  contiguous run of code units, compared without regard to case.
\<close>

definition containsIgnoreCase :: "string \<Rightarrow> string \<Rightarrow> bool" where
  "containsIgnoreCase str query =
     (\<exists>i\<in>set (upt 0 (Suc (length str))).
        toLowerCase (take (length query) (drop i str)) = toLowerCase query)"

section \<open>Sequences of requests\<close>

datatype request =
    CreatePost nat postBody
  | UpdatePost nat pathId postBody
  | DeletePost pathId
  | CreateTag "string option"
  | GetPosts listQuery
  | SearchPosts searchQuery

fun step :: "cloudinary \<Rightarrow> world \<Rightarrow> request \<Rightarrow> world" where
  "step cloud w (CreatePost now body) = snd (createPost cloud now body w)"
| "step cloud w (UpdatePost now rawId body) = snd (updatePost cloud now rawId body w)"
| "step cloud w (DeletePost rawId) = snd (deletePost cloud rawId w)"
| "step cloud w (CreateTag name) = snd (createTag name w)"
| "step cloud w (GetPosts q) = w"
| "step cloud w (SearchPosts q) = w"

definition run :: "cloudinary \<Rightarrow> world \<Rightarrow> request list \<Rightarrow> world" where
  "run cloud w rs = foldl (step cloud) w rs"

section \<open>The specification's validity of a creation request\<close>

text \<open>
  In the specification's words: title and description present, image present, the media type
  begins with the image category marker, the byte size is at most \<open>5 \<times> 1024 \<times> 1024\<close>.
\<close>

definition validCreateBody :: "postBody \<Rightarrow> bool" where
  "validCreateBody body =
     (\<not> falsy (body_title body) \<and> \<not> falsy (body_description body)
      \<and> (case body_image body of
            None \<Rightarrow> False
          | Some f \<Rightarrow> startsWith (mimetype f) ''image/'' \<and> file_size f \<le> 5 * 1024 * 1024))"

section \<open>Concrete worlds and requests\<close>

text \<open>
  A blob service that works, one whose deletions fail and one whose uploads fail; an image of
  1 MiB and one of 5 MiB and a byte; the creation request of the specification's example
  (title T, description D, tags \<^verbatim>\<open>A, B\<close>) and the world it leaves when run in the empty world.
\<close>

definition emptyWorld :: world where
  "emptyWorld = \<lparr>tagStore = [], postStore = [], nextId = 0, trace = []\<rparr>"

definition cloudUp :: cloudinary where
  "cloudUp = \<lparr>uploader_upload = (\<lambda>f. Some (''https://cdn/posts-api/'' @ file_data f @ ''.png'')),
              uploader_destroy = (\<lambda>publicId. True)\<rparr>"

definition cloudNoDestroy :: cloudinary where
  "cloudNoDestroy = \<lparr>uploader_upload = (\<lambda>f. Some (''https://cdn/posts-api/'' @ file_data f @ ''.png'')),
                     uploader_destroy = (\<lambda>publicId. False)\<rparr>"

definition cloudDown :: cloudinary where
  "cloudDown = \<lparr>uploader_upload = (\<lambda>f. None), uploader_destroy = (\<lambda>publicId. False)\<rparr>"

definition pngFile :: uploadedFile where
  "pngFile = \<lparr>mimetype = ''image/png'', file_size = 1048576, file_data = ''abc''\<rparr>"

definition hugeFile :: uploadedFile where
  "hugeFile = \<lparr>mimetype = ''image/png'', file_size = 5242881, file_data = ''xyz''\<rparr>"

definition bodyAB :: postBody where
  "bodyAB = \<lparr>body_title = Some ''T'', body_description = Some ''D'',
              body_tags = TagsString ''A, B'', body_image = Some pngFile\<rparr>"

definition tagA :: tag where
  "tagA = \<lparr>tag_id = 0, tag_name = ''A'', tag_slug = ''a''\<rparr>"

definition tagB :: tag where
  "tagB = \<lparr>tag_id = 1, tag_name = ''B'', tag_slug = ''b''\<rparr>"

definition postT :: post where
  "postT = \<lparr>post_id = 2, title = ''T'', description = ''D'',
             imageUrl = ''https://cdn/posts-api/abc.png'', tags = [0, 1],
             createdAt = 1, updatedAt = 1\<rparr>"

definition worldAB :: world where
  "worldAB = \<lparr>tagStore = [tagA, tagB], postStore = [postT], nextId = 3,
               trace = [CloudUpload pngFile, TagInsert 0, TagInsert 1, PostInsert 2]\<rparr>"

section \<open>An invariant of the post collection\<close>

text \<open>
  The \<^verbatim>\<open>trim\<close> setter of \<^verbatim>\<open>PostSchema\<close> runs on every write of a title, so a stored title
  has no white space at either end.
\<close>

definition titlesTrimmed :: "world \<Rightarrow> bool" where
  "titlesTrimmed w = list_all (\<lambda>p. trim (title p) = title p) (postStore w)"

section \<open>Concrete queries\<close>

definition negativePageQuery :: listQuery where
  "negativePageQuery = \<lparr>query_page = Some ''-5'', query_limit = None, query_sortBy = None,
                         query_sortOrder = None, query_tags = None\<rparr>"

definition emptyTagsQuery :: listQuery where
  "emptyTagsQuery = \<lparr>query_page = None, query_limit = None, query_sortBy = None,
                      query_sortOrder = None, query_tags = Some ''''\<rparr>"

definition unknownTagQuery :: listQuery where
  "unknownTagQuery = \<lparr>query_page = Some ''2'', query_limit = Some ''abc'', query_sortBy = None,
                       query_sortOrder = None, query_tags = Some ''nonexistent-slug''\<rparr>"

definition upperTagQuery :: listQuery where
  "upperTagQuery = \<lparr>query_page = None, query_limit = None, query_sortBy = None,
                     query_sortOrder = None, query_tags = Some ''A''\<rparr>"

definition dotQuery :: searchQuery where
  "dotQuery = \<lparr>query_q = Some ''.'', search_page = None, search_limit = None\<rparr>"

section \<open>The slug normalizer\<close>

lemma toLowerCase_unit_slug_char:
  "in_az09 c \<or> c = CHR ''-'' \<Longrightarrow> toLowerCase_unit c = c"
  by (auto simp add: toLowerCase_unit_def in_az09_def Let_def)

lemma slugify_length: "length (slugify x) = length x"
  by (simp add: slugify_def toLowerCase_def)

lemma slugify_alphabet: "c \<in> set (slugify x) \<Longrightarrow> in_az09 c \<or> c = CHR ''-''"
  by (auto simp add: slugify_def split: if_splits)

lemma slugify_fixes_slug_strings:
  "(\<forall>c\<in>set s. in_az09 c \<or> c = CHR ''-'') \<Longrightarrow> slugify s = s"
  by (induction s) (auto simp add: slugify_def toLowerCase_def toLowerCase_unit_slug_char)

lemma toLowerCase_fixes_slug_strings:
  "(\<forall>c\<in>set s. in_az09 c \<or> c = CHR ''-'') \<Longrightarrow> toLowerCase s = s"
  by (induction s) (auto simp add: toLowerCase_def toLowerCase_unit_slug_char)

lemma slugify_idem: "slugify (slugify x) = slugify x"
  by (rule slugify_fixes_slug_strings) (auto dest: slugify_alphabet)

lemma toLowerCase_slugify: "toLowerCase (slugify x) = slugify x"
  by (rule toLowerCase_fixes_slug_strings) (auto dest: slugify_alphabet)

text \<open>
  Claim C9. The slug normalizer is a total function of its argument alone. For every string
  \<open>x\<close>, \<open>slugify x\<close> is \<open>x\<close> lower-cased with every code unit outside \<^verbatim>\<open>[a-z0-9]\<close> replaced
  by \<^verbatim>\<open>-\<close>, position by position; every code unit of the result is in \<^verbatim>\<open>[a-z0-9]\<close> or is
  \<^verbatim>\<open>-\<close>; and \<open>slugify (slugify x) = slugify x\<close>.
\<close>

theorem slugify_normalizes:
  "length (slugify x) = length x
   \<and> (\<forall>i<length x. slugify x ! i =
         (if in_az09 (toLowerCase x ! i) then toLowerCase x ! i else CHR ''-''))
   \<and> (\<forall>c\<in>set (slugify x). in_az09 c \<or> c = CHR ''-'')
   \<and> slugify (slugify x) = slugify x"
proof -
  have "\<forall>i<length x. slugify x ! i =
          (if in_az09 (toLowerCase x ! i) then toLowerCase x ! i else CHR ''-'')"
    by (simp add: slugify_def toLowerCase_def)
  then show ?thesis
    using slugify_alphabet [of _ x] by (simp add: slugify_length slugify_idem)
qed

theorem slugify_normalizes_witness:
  "slugify ''Hello, World 42'' = ''hello--world-42''
   \<and> slugify ''Hello, World 42'' ! 5 = CHR ''-''
   \<and> in_az09 (slugify ''Hello, World 42'' ! 0)
   \<and> slugify (slugify ''Hello, World 42'') = ''hello--world-42''"
proof -
  have e: "slugify ''Hello, World 42'' = ''hello--world-42''"
    by code_simp
  have l: "toLowerCase ''Hello, World 42'' = ''hello, world 42''"
    by code_simp
  have a: "in_az09 CHR ''h''" and b: "\<not> in_az09 CHR '',''"
    by (simp_all add: in_az09_def)
  have "(5::nat) < length ''Hello, World 42''" and "(0::nat) < length ''Hello, World 42''"
    by simp_all
  then show ?thesis
    using slugify_normalizes [of "''Hello, World 42''"] e l a b by simp
qed

section \<open>The effects of the store and blob operations\<close>

text \<open>\<open>split\<close> never gives the empty list, so the \<open>hd\<close> and \<open>last\<close> taken of its result exist.\<close>

lemma split_nonempty: "split sep s \<noteq> []"
  by (induction s) (simp_all add: Let_def)

lemma Tag_create_cases:
  "Tag_create n s w = (r, w') \<Longrightarrow>
     ((\<exists>e. r = Inl e) \<and> w' = w)
   \<or> (r = Inr \<lparr>tag_id = nextId w, tag_name = trim n, tag_slug = toLowerCase s\<rparr>
      \<and> toLowerCase s \<notin> tag_slug ` set (tagStore w)
      \<and> w' = w\<lparr>tagStore := tagStore w @ [\<lparr>tag_id = nextId w, tag_name = trim n, tag_slug = toLowerCase s\<rparr>],
                nextId := Suc (nextId w), trace := trace w @ [TagInsert (nextId w)]\<rparr>)"
  by (auto simp add: Tag_create_def Let_def split: if_splits)

lemma resolveTag_cases:
  "resolveTag n w = (r, w') \<Longrightarrow>
     (\<exists>t. Tag_findOne (slugify n) (tagStore w) = Some t \<and> r = Inr (tag_id t) \<and> w' = w)
   \<or> (Tag_findOne (slugify n) (tagStore w) = None \<and> (\<exists>e. r = Inl e) \<and> w' = w)
   \<or> (Tag_findOne (slugify n) (tagStore w) = None \<and> r = Inr (nextId w)
      \<and> w' = w\<lparr>tagStore := tagStore w @ [\<lparr>tag_id = nextId w, tag_name = trim n, tag_slug = slugify n\<rparr>],
                nextId := Suc (nextId w), trace := trace w @ [TagInsert (nextId w)]\<rparr>)"
  unfolding resolveTag_def Let_def
  by (auto split: option.splits prod.splits sum.splits dest!: Tag_create_cases simp add: toLowerCase_slugify)

lemma Tag_findOne_Some:
  "Tag_findOne s ts = Some t \<Longrightarrow> t \<in> set ts \<and> tag_slug t = toLowerCase s"
  by (auto simp add: Tag_findOne_def find_Some_iff)

lemma Tag_findOne_None: "Tag_findOne s ts = None \<longleftrightarrow> toLowerCase s \<notin> tag_slug ` set ts"
  by (force simp add: Tag_findOne_def find_None_iff image_iff)

text \<open>On the slug of a name the lower-casing of the filter value changes nothing.\<close>

lemma Tag_findOne_slugify:
  "Tag_findOne (slugify n) ts = Some t \<Longrightarrow> t \<in> set ts \<and> tag_slug t = slugify n"
  using Tag_findOne_Some [of "slugify n" ts t] by (simp add: toLowerCase_slugify)

lemma Tag_findOne_slugify_None:
  "Tag_findOne (slugify n) ts = None \<longleftrightarrow> slugify n \<notin> tag_slug ` set ts"
  by (simp add: Tag_findOne_None toLowerCase_slugify)

lemma Tag_findOne_append:
  "Tag_findOne s (ts @ us) = (case Tag_findOne s ts of Some t \<Rightarrow> Some t | None \<Rightarrow> Tag_findOne s us)"
  by (induction ts) (auto simp add: Tag_findOne_def)

lemma resolveTag_effect:
  assumes "resolveTag n w = (r, w')"
  shows "postStore w' = postStore w"
    and "\<exists>ts. tagStore w' = tagStore w @ ts \<and> trace w' = trace w @ map (\<lambda>t. TagInsert (tag_id t)) ts
              \<and> length ts \<le> 1"
    and "r = Inr i \<Longrightarrow> \<exists>t\<in>set (tagStore w'). tag_id t = i \<and> tag_slug t = slugify n"
    and "r = Inl e \<Longrightarrow> w' = w"
    and "distinct (map tag_slug (tagStore w)) \<Longrightarrow> distinct (map tag_slug (tagStore w'))"
  using resolveTag_cases [OF assms]
  by (auto dest: Tag_findOne_slugify simp add: Tag_findOne_slugify_None)

lemma resolveTags_effect:
  "resolveTags names acc w = (r, w') \<Longrightarrow>
     postStore w' = postStore w
   \<and> (\<exists>ts. tagStore w' = tagStore w @ ts \<and> trace w' = trace w @ map (\<lambda>t. TagInsert (tag_id t)) ts)"
proof (induction names arbitrary: acc w)
  case Nil
  then show ?case by simp
next
  case (Cons n names)
  obtain r1 w1 where r1: "resolveTag n w = (r1, w1)"
    by (cases "resolveTag n w")
  from resolveTag_effect(1,2) [OF r1]
  obtain ts where w1: "postStore w1 = postStore w" "tagStore w1 = tagStore w @ ts"
    "trace w1 = trace w @ map (\<lambda>t. TagInsert (tag_id t)) ts"
    by blast
  show ?case
  proof (cases r1)
    case (Inl e)
    with Cons.prems r1 have "w' = w1" by simp
    with w1 show ?thesis by auto
  next
    case (Inr i)
    with Cons.prems r1 have "resolveTags names (acc @ [i]) w1 = (r, w')" by simp
    from Cons.IH [OF this] w1 show ?thesis by auto
  qed
qed

lemma processTags_effect:
  "processTags raw w = (r, w') \<Longrightarrow>
     postStore w' = postStore w
   \<and> (\<exists>ts. tagStore w' = tagStore w @ ts \<and> trace w' = trace w @ map (\<lambda>t. TagInsert (tag_id t)) ts)"
  unfolding processTags_def by (rule resolveTags_effect)

lemma Post_findById_Some: "Post_findById i ps = Some p \<Longrightarrow> p \<in> set ps \<and> post_id p = i"
  by (auto simp add: Post_findById_def find_Some_iff)

lemma Post_create_effect:
  "Post_create t d u ids now w = (r, w') \<Longrightarrow>
     ((\<exists>e. r = Inl e) \<and> w' = w)
   \<or> (\<exists>p. r = Inr p \<and> imageUrl p = u \<and> tags p = ids \<and> post_id p = nextId w
          \<and> postStore w' = postStore w @ [p] \<and> tagStore w' = tagStore w
          \<and> trace w' = trace w @ [PostInsert (post_id p)])"
  by (auto simp add: Post_create_def Let_def split: option.splits)

lemma resolveTags_ids:
  "resolveTags names acc w = (Inr ids, w') \<Longrightarrow>
     \<exists>new. ids = acc @ new
       \<and> list_all2 (\<lambda>i n. \<exists>t\<in>set (tagStore w'). tag_id t = i \<and> tag_slug t = slugify n) new names"
proof (induction names arbitrary: acc w)
  case Nil
  then show ?case by simp
next
  case (Cons n names)
  obtain r1 w1 where r1: "resolveTag n w = (r1, w1)"
    by (cases "resolveTag n w")
  with Cons.prems obtain i where i: "r1 = Inr i"
    and rest: "resolveTags names (acc @ [i]) w1 = (Inr ids, w')"
    by (cases r1) auto
  from resolveTag_effect(3) [OF r1 i]
  obtain t where t: "t \<in> set (tagStore w1)" "tag_id t = i" "tag_slug t = slugify n"
    by blast
  from resolveTags_effect [OF rest] t(1) have "t \<in> set (tagStore w')"
    by auto
  with Cons.IH [OF rest] t show ?case
    by auto
qed

lemma processTags_ids:
  assumes "processTags raw w = (Inr ids, w')"
  shows "list_all2 (\<lambda>i n. \<exists>t\<in>set (tagStore w'). tag_id t = i \<and> tag_slug t = slugify n)
           ids (tagArray raw)"
  using resolveTags_ids [of "tagArray raw" "[]" w ids w'] assms
  by (simp add: processTags_def)

lemma newImageUrl_effect:
  "newImageUrl cloud p img w = (r, w1) \<Longrightarrow>
     postStore w1 = postStore w \<and> tagStore w1 = tagStore w \<and> nextId w1 = nextId w"
  by (auto simp add: newImageUrl_def uploadToCloud_def deleteFromCloud_def
      split: option.splits if_splits prod.splits bool.splits)

lemma newImageUrl_valid_image:
  assumes "startsWith (mimetype f) ''image/''" "file_size f \<le> 5 * 1024 * 1024"
  shows "newImageUrl cloud p (Some f) w =
     (case uploader_upload cloud f of
        None \<Rightarrow> (Inl (ServerError500 UploadFailed), w\<lparr>trace := trace w @ [CloudUpload f]\<rparr>)
      | Some url \<Rightarrow>
          if uploader_destroy cloud (fullPublicId (imageUrl p))
          then (Inr url, w\<lparr>trace := trace w @ [CloudUpload f, CloudDestroy (fullPublicId (imageUrl p))]\<rparr>)
          else (Inl (ServerError500 DeleteFailed),
                w\<lparr>trace := trace w @ [CloudUpload f, CloudDestroy (fullPublicId (imageUrl p))]\<rparr>))"
  using assms
  by (simp add: newImageUrl_def uploadToCloud_def deleteFromCloud_def split: option.splits)

lemma newImageUrl_Inl_not_Ok:
  "newImageUrl cloud p img w = (Inl r, w1) \<Longrightarrow> \<forall>x. r \<noteq> Ok200 x"
  by (auto simp add: newImageUrl_def uploadToCloud_def deleteFromCloud_def
      split: option.splits if_splits prod.splits bool.splits)

lemma find_updateFirst_const:
  "find P xs = Some x \<Longrightarrow> P y \<Longrightarrow> find P (updateFirst P (\<lambda>_. y) xs) = Some y"
  by (induction xs) (auto split: if_splits)

lemma Post_findByIdAndUpdate_effect:
  assumes "Post_findById i (postStore w) = Some p"
  shows "Post_findByIdAndUpdate i t d u ids now w =
     (case Post_validate t d u of
        None \<Rightarrow> (Inl PostValidation, w)
      | Some t' \<Rightarrow>
          (Inr (Some (p\<lparr>title := t', description := d, imageUrl := u, tags := ids, updatedAt := now\<rparr>)),
           w\<lparr>postStore := updateFirst (\<lambda>q. post_id q = i)
                 (\<lambda>_. p\<lparr>title := t', description := d, imageUrl := u, tags := ids, updatedAt := now\<rparr>)
                 (postStore w),
              trace := trace w @ [PostUpdate i]\<rparr>))"
  using assms by (simp add: Post_findByIdAndUpdate_def Let_def split: option.splits)

lemma Post_findById_updated:
  assumes "Post_findById i ps = Some p" "post_id q = i"
  shows "Post_findById i (updateFirst (\<lambda>q. post_id q = i) (\<lambda>_. q) ps) = Some q"
  using assms unfolding Post_findById_def
  by (intro find_updateFirst_const) auto

text \<open>The four ways in which an update of an existing post ends.\<close>

lemma updatePost_found:
  assumes p: "Post_findById postId (postStore w) = Some p"
  obtains
    (image) resp w1 where
      "newImageUrl cloud p (body_image body) w = (Inl resp, w1)"
      "updatePost cloud now (ObjectId postId) body w = (resp, w1)"
  | (tags) url w1 e w2 where
      "newImageUrl cloud p (body_image body) w = (Inr url, w1)"
      "processTags (body_tags body) w1 = (Inl e, w2)"
      "updatePost cloud now (ObjectId postId) body w = (ServerError500 e, w2)"
  | (invalid) url w1 ids w2 where
      "newImageUrl cloud p (body_image body) w = (Inr url, w1)"
      "processTags (body_tags body) w1 = (Inr ids, w2)"
      "Post_validate (orElse (body_title body) (title p))
         (orElse (body_description body) (description p)) url = None"
      "updatePost cloud now (ObjectId postId) body w = (ServerError500 PostValidation, w2)"
  | (updated) url w1 ids w2 t' q where
      "newImageUrl cloud p (body_image body) w = (Inr url, w1)"
      "processTags (body_tags body) w1 = (Inr ids, w2)"
      "Post_validate (orElse (body_title body) (title p))
         (orElse (body_description body) (description p)) url = Some t'"
      "q = p\<lparr>title := t', description := orElse (body_description body) (description p),
                imageUrl := url, tags := (if length ids > 0 then ids else tags p),
                updatedAt := now\<rparr>"
      "updatePost cloud now (ObjectId postId) body w
         = (Ok200 (Some (populate (tagStore w2) q)),
            w2\<lparr>postStore := updateFirst (\<lambda>x. post_id x = postId) (\<lambda>_. q) (postStore w),
                trace := trace w2 @ [PostUpdate postId]\<rparr>)"
      "Post_findById postId (updateFirst (\<lambda>x. post_id x = postId) (\<lambda>_. q) (postStore w)) = Some q"
proof -
  obtain r1 w1 where n: "newImageUrl cloud p (body_image body) w = (r1, w1)"
    by (cases "newImageUrl cloud p (body_image body) w")
  note e1 = newImageUrl_effect [OF n]
  show ?thesis
  proof (cases r1)
    case (Inl resp)
    with n p have "updatePost cloud now (ObjectId postId) body w = (resp, w1)"
      by (simp add: updatePost_def)
    with n Inl show ?thesis by (intro image) simp_all
  next
    case (Inr url)
    obtain r2 w2 where t: "processTags (body_tags body) w1 = (r2, w2)"
      by (cases "processTags (body_tags body) w1")
    note e2 = processTags_effect [OF t]
    show ?thesis
    proof (cases r2)
      case (Inl e)
      with n p Inr t have "updatePost cloud now (ObjectId postId) body w = (ServerError500 e, w2)"
        by (simp add: updatePost_def)
      with n Inr t Inl show ?thesis by (intro tags) simp_all
    next
      case ids: (Inr ids)
      from p e1 e2 have p2: "Post_findById postId (postStore w2) = Some p"
        by simp
      from n Inr have n': "newImageUrl cloud p (body_image body) w = (Inr url, w1)"
        by simp
      from t ids have t': "processTags (body_tags body) w1 = (Inr ids, w2)"
        by simp
      show ?thesis
      proof (cases "Post_validate (orElse (body_title body) (title p))
                (orElse (body_description body) (description p)) url")
        case None
        with n' p t' have "updatePost cloud now (ObjectId postId) body w = (ServerError500 PostValidation, w2)"
          by (simp add: updatePost_def Post_findByIdAndUpdate_effect [OF p2])
        with n' t' None show ?thesis by (intro invalid)
      next
        case (Some t')
        define q where "q = p\<lparr>title := t',
                      description := orElse (body_description body) (description p),
                      imageUrl := url,
                      tags := (if length ids > 0 then ids else tags p),
                      updatedAt := now\<rparr>"
        have ps: "postStore w2 = postStore w"
          using e1 e2 by simp
        from Post_findById_Some [OF p] have "post_id q = postId"
          by (simp add: q_def)
        from Post_findById_updated [OF p this]
        have f: "Post_findById postId (updateFirst (\<lambda>x. post_id x = postId) (\<lambda>_. q) (postStore w)) = Some q" .
        from Some n' p t' ps
        have u: "updatePost cloud now (ObjectId postId) body w
              = (Ok200 (Some (populate (tagStore w2) q)),
                 w2\<lparr>postStore := updateFirst (\<lambda>x. post_id x = postId) (\<lambda>_. q) (postStore w),
                     trace := trace w2 @ [PostUpdate postId]\<rparr>)"
          by (simp add: updatePost_def Post_findByIdAndUpdate_effect [OF p2] q_def)
        from n' t' Some q_def u f show ?thesis
          by (rule updated)
      qed
    qed
  qed
qed

section \<open>Evaluation on the concrete worlds\<close>

lemma validCreateBody_bodyAB: "validCreateBody bodyAB"
  by (simp add: validCreateBody_def bodyAB_def pngFile_def falsy_def startsWith_def)

lemma invalid_hugeFile: "\<not> validCreateBody (bodyAB\<lparr>body_image := Some hugeFile\<rparr>)"
  by (simp add: validCreateBody_def bodyAB_def hugeFile_def falsy_def startsWith_def)

lemma findById_worldAB: "Post_findById 2 (postStore worldAB) = Some postT"
  by (simp add: Post_findById_def worldAB_def postT_def)

lemma findById_worldAB_none: "Post_findById 7 (postStore worldAB) = None"
  by (simp add: Post_findById_def worldAB_def postT_def)

lemma fullPublicId_postT: "fullPublicId (imageUrl postT) = ''posts-api/abc''"
  by (simp add: fullPublicId_def postT_def)

lemma slugify_examples:
  "slugify ''A'' = ''a''" "slugify ''B'' = ''b''" "slugify ''C'' = ''c''"
  by code_simp+

lemma trim_examples:
  "trim ''A'' = ''A''" "trim '' B'' = ''B''" "trim ''B'' = ''B''" "trim ''C'' = ''C''"
  "trim ''T'' = ''T''"
  "trim ''New'' = ''New''"
  by code_simp+

lemma toLowerCase_examples:
  "toLowerCase ''a'' = ''a''" "toLowerCase ''b'' = ''b''" "toLowerCase ''c'' = ''c''"
  by code_simp+

lemma split_example: "split CHR '','' ''A, B'' = [''A'', '' B'']"
  by code_simp

lemmas eval_defs =
  Post_findById_def worldAB_def postT_def tagA_def tagB_def emptyWorld_def bodyAB_def
  pngFile_def cloudUp_def cloudNoDestroy_def cloudDown_def
  newImageUrl_def uploadToCloud_def deleteFromCloud_def startsWith_def
  processTags_def resolveTag_def Tag_findOne_def Tag_create_def
  Post_create_def Post_findByIdAndUpdate_def Post_findByIdAndDelete_def Post_validate_def
  orElse_def falsy_def populate_def List.map_filter_def Let_def
  slugify_examples trim_examples toLowerCase_examples split_example

lemma createPost_example:
  "createPost cloudUp 1 bodyAB emptyWorld = (Created201 (postT, [tagA, tagB]), worldAB)"
  by (simp add: createPost_def eval_defs)

section \<open>Deleting a post\<close>

text \<open>
  Claim C6, as amended. A delete request whose path id is no well-formed ObjectId ends with a
  500 and leaves the world as it was. A delete request for a well-formed id that no post has
  answers 404 and leaves the world as it was. In both cases no call reaches the blob
  service. When the post exists, the blob deletion is called first: if it fails the answer
  is a 500 and nothing but that call has happened, the post stays in the collection; if it
  succeeds the record is deleted after it.
\<close>

theorem deletePost_order:
  "(\<forall>s. deletePost cloud (NotObjectId s) w = (ServerError500 CastError, w))
   \<and> (Post_findById postId (postStore w) = None \<longrightarrow>
        deletePost cloud (ObjectId postId) w = (NotFound404 ''Post not found'', w))
   \<and> (\<forall>p. Post_findById postId (postStore w) = Some p \<longrightarrow>
        (if uploader_destroy cloud (fullPublicId (imageUrl p))
         then fst (deletePost cloud (ObjectId postId) w) = Ok200 ()
            \<and> trace (snd (deletePost cloud (ObjectId postId) w))
                = trace w @ [CloudDestroy (fullPublicId (imageUrl p)), PostDelete postId]
            \<and> postStore (snd (deletePost cloud (ObjectId postId) w))
                = removeFirst (\<lambda>p. post_id p = postId) (postStore w)
         else deletePost cloud (ObjectId postId) w
                = (ServerError500 DeleteFailed,
                   w\<lparr>trace := trace w @ [CloudDestroy (fullPublicId (imageUrl p))]\<rparr>)))"
  by (auto simp add: deletePost_def deleteFromCloud_def Post_findByIdAndDelete_def)

theorem deletePost_order_witness:
  "deletePost cloudUp (NotObjectId ''not-an-id'') worldAB = (ServerError500 CastError, worldAB)
   \<and> Post_findById 7 (postStore worldAB) = None
   \<and> deletePost cloudUp (ObjectId 7) worldAB = (NotFound404 ''Post not found'', worldAB)
   \<and> Post_findById 2 (postStore worldAB) = Some postT
   \<and> deletePost cloudNoDestroy (ObjectId 2) worldAB
       = (ServerError500 DeleteFailed,
          worldAB\<lparr>trace := trace worldAB @ [CloudDestroy ''posts-api/abc'']\<rparr>)
   \<and> fst (deletePost cloudUp (ObjectId 2) worldAB) = Ok200 ()
   \<and> trace (snd (deletePost cloudUp (ObjectId 2) worldAB))
       = trace worldAB @ [CloudDestroy ''posts-api/abc'', PostDelete 2]
   \<and> postStore (snd (deletePost cloudUp (ObjectId 2) worldAB)) = []"
proof -
  have r: "removeFirst (\<lambda>p. post_id p = 2) (postStore worldAB) = []"
    by (simp add: worldAB_def postT_def)
  have d: "uploader_destroy cloudUp ''posts-api/abc''"
    "\<not> uploader_destroy cloudNoDestroy ''posts-api/abc''"
    by (simp_all add: cloudUp_def cloudNoDestroy_def)
  show ?thesis
    using deletePost_order [of cloudUp worldAB 7] deletePost_order [of cloudNoDestroy worldAB 2]
      deletePost_order [of cloudUp worldAB 2]
    by (simp add: findById_worldAB findById_worldAB_none fullPublicId_postT r d)
qed

text \<open>
  Claim C6 as stated fails for a path id that is no well-formed ObjectId: no post has such
  an id, yet the request \<^verbatim>\<open>DELETE /api/posts/not-an-id\<close> is answered by the \<^verbatim>\<open>catch\<close> block
  with a 500, not with the 404 of a post that is not found.
\<close>

theorem deletePost_malformed_id_counterexample:
  "deletePost cloudUp (NotObjectId ''not-an-id'') worldAB = (ServerError500 CastError, worldAB)
   \<and> fst (deletePost cloudUp (NotObjectId ''not-an-id'') worldAB)
       \<noteq> NotFound404 ''Post not found''"
  by (simp add: deletePost_def)

section \<open>Creating a post\<close>

lemma createPost_invalid:
  "\<not> validCreateBody body \<Longrightarrow> \<exists>msg. createPost cloud now body w = (BadRequest400 msg, w)"
  by (auto simp add: createPost_def validCreateBody_def split: option.splits)

lemma createPost_upload_fails:
  assumes "validCreateBody body" "body_image body = Some f" "uploader_upload cloud f = None"
  shows "createPost cloud now body w
           = (ServerError500 UploadFailed, w\<lparr>trace := trace w @ [CloudUpload f]\<rparr>)"
  using assms by (simp add: createPost_def validCreateBody_def uploadToCloud_def)

lemma createPost_uploaded:
  assumes v: "validCreateBody body" and f: "body_image body = Some f"
    and u: "uploader_upload cloud f = Some url"
  shows "\<exists>ts. tagStore (snd (createPost cloud now body w)) = tagStore w @ ts
          \<and> ((postStore (snd (createPost cloud now body w)) = postStore w
               \<and> trace (snd (createPost cloud now body w))
                   = trace w @ CloudUpload f # map (\<lambda>t. TagInsert (tag_id t)) ts)
             \<or> (\<exists>p. postStore (snd (createPost cloud now body w)) = postStore w @ [p]
                   \<and> imageUrl p = url
                   \<and> trace (snd (createPost cloud now body w))
                       = trace w @ CloudUpload f # map (\<lambda>t. TagInsert (tag_id t)) ts
                           @ [PostInsert (post_id p)]))"
proof -
  let ?w1 = "w\<lparr>trace := trace w @ [CloudUpload f]\<rparr>"
  obtain r2 w2 where p2: "processTags (body_tags body) ?w1 = (r2, w2)"
    by (cases "processTags (body_tags body) ?w1")
  from processTags_effect [OF p2] obtain ts where
    w2: "postStore w2 = postStore w" "tagStore w2 = tagStore w @ ts"
      "trace w2 = trace w @ CloudUpload f # map (\<lambda>t. TagInsert (tag_id t)) ts"
    by auto
  show ?thesis
  proof (cases r2)
    case (Inl e)
    with v f u p2 have "snd (createPost cloud now body w) = w2"
      by (simp add: createPost_def validCreateBody_def uploadToCloud_def)
    with w2 show ?thesis by auto
  next
    case (Inr tagIds)
    obtain r3 w3 where p3:
      "Post_create (the (body_title body)) (the (body_description body)) url tagIds now w2 = (r3, w3)"
      by (cases "Post_create (the (body_title body)) (the (body_description body)) url tagIds now w2")
    with Inr v f u p2 have s: "snd (createPost cloud now body w) = w3"
      by (simp add: createPost_def validCreateBody_def uploadToCloud_def split: sum.splits)
    from Post_create_effect [OF p3] w2 s show ?thesis
      by auto
  qed
qed

text \<open>
  Claim C5. A creation request that is not valid (title, description or image missing, a
  media type that does not begin with \<^verbatim>\<open>image/\<close>, more than \<open>5 \<times> 1024 \<times> 1024\<close> bytes) is
  answered 400 with the world as it was: no upload is called. A valid request calls the
  upload first. If the upload fails the answer is a 500 and nothing else has happened. If it
  succeeds, the tags are resolved and then the post is inserted with the URL the upload
  gave, or not at all. So a post is inserted only by a valid request whose upload
  succeeded, and after that upload.
\<close>

theorem createPost_order:
  "(\<not> validCreateBody body \<longrightarrow> (\<exists>msg. createPost cloud now body w = (BadRequest400 msg, w)))
   \<and> (validCreateBody body \<longrightarrow>
        (\<exists>f. body_image body = Some f
          \<and> (case uploader_upload cloud f of
                None \<Rightarrow> createPost cloud now body w
                          = (ServerError500 UploadFailed, w\<lparr>trace := trace w @ [CloudUpload f]\<rparr>)
              | Some url \<Rightarrow>
                  (\<exists>ts. tagStore (snd (createPost cloud now body w)) = tagStore w @ ts
                    \<and> ((postStore (snd (createPost cloud now body w)) = postStore w
                         \<and> trace (snd (createPost cloud now body w))
                             = trace w @ CloudUpload f # map (\<lambda>t. TagInsert (tag_id t)) ts)
                       \<or> (\<exists>p. postStore (snd (createPost cloud now body w)) = postStore w @ [p]
                             \<and> imageUrl p = url
                             \<and> trace (snd (createPost cloud now body w))
                                 = trace w @ CloudUpload f # map (\<lambda>t. TagInsert (tag_id t)) ts
                                     @ [PostInsert (post_id p)]))))))
   \<and> (postStore (snd (createPost cloud now body w)) \<noteq> postStore w \<longrightarrow>
        (\<exists>f url. body_image body = Some f \<and> uploader_upload cloud f = Some url
           \<and> validCreateBody body))"
proof (intro conjI impI)
  assume "\<not> validCreateBody body"
  then show "\<exists>msg. createPost cloud now body w = (BadRequest400 msg, w)"
    by (rule createPost_invalid)
next
  assume v: "validCreateBody body"
  then obtain f where f: "body_image body = Some f"
    by (auto simp add: validCreateBody_def split: option.splits)
  show "\<exists>f. body_image body = Some f
          \<and> (case uploader_upload cloud f of
                None \<Rightarrow> createPost cloud now body w
                          = (ServerError500 UploadFailed, w\<lparr>trace := trace w @ [CloudUpload f]\<rparr>)
              | Some url \<Rightarrow>
                  (\<exists>ts. tagStore (snd (createPost cloud now body w)) = tagStore w @ ts
                    \<and> ((postStore (snd (createPost cloud now body w)) = postStore w
                         \<and> trace (snd (createPost cloud now body w))
                             = trace w @ CloudUpload f # map (\<lambda>t. TagInsert (tag_id t)) ts)
                       \<or> (\<exists>p. postStore (snd (createPost cloud now body w)) = postStore w @ [p]
                             \<and> imageUrl p = url
                             \<and> trace (snd (createPost cloud now body w))
                                 = trace w @ CloudUpload f # map (\<lambda>t. TagInsert (tag_id t)) ts
                                     @ [PostInsert (post_id p)]))))"
  proof (cases "uploader_upload cloud f")
    case None
    with createPost_upload_fails [OF v f None, of now w] f show ?thesis by simp
  next
    case (Some url)
    with createPost_uploaded [OF v f Some, of now w] f show ?thesis by simp
  qed
next
  assume ch: "postStore (snd (createPost cloud now body w)) \<noteq> postStore w"
  have v: "validCreateBody body"
  proof (rule ccontr)
    assume "\<not> validCreateBody body"
    from createPost_invalid [OF this, of cloud now w] ch show False by auto
  qed
  then obtain f where f: "body_image body = Some f"
    by (auto simp add: validCreateBody_def split: option.splits)
  have "uploader_upload cloud f \<noteq> None"
  proof
    assume "uploader_upload cloud f = None"
    from createPost_upload_fails [OF v f this, of now w] ch show False by simp
  qed
  with v f show "\<exists>f url. body_image body = Some f \<and> uploader_upload cloud f = Some url
           \<and> validCreateBody body"
    by auto
qed

theorem createPost_order_witness:
  "\<not> validCreateBody (bodyAB\<lparr>body_image := Some hugeFile\<rparr>)
   \<and> snd (createPost cloudUp 1 (bodyAB\<lparr>body_image := Some hugeFile\<rparr>) emptyWorld) = emptyWorld
   \<and> validCreateBody bodyAB
   \<and> createPost cloudDown 1 bodyAB emptyWorld
       = (ServerError500 UploadFailed, emptyWorld\<lparr>trace := trace emptyWorld @ [CloudUpload pngFile]\<rparr>)
   \<and> postStore (snd (createPost cloudUp 1 bodyAB emptyWorld)) \<noteq> postStore emptyWorld
   \<and> uploader_upload cloudUp pngFile = Some ''https://cdn/posts-api/abc.png''"
proof -
  have i: "body_image bodyAB = Some pngFile"
    by (simp add: bodyAB_def)
  have u: "uploader_upload cloudDown pngFile = None"
    "uploader_upload cloudUp pngFile = Some ''https://cdn/posts-api/abc.png''"
    by (simp_all add: cloudDown_def cloudUp_def pngFile_def)
  have c: "postStore (snd (createPost cloudUp 1 bodyAB emptyWorld)) \<noteq> postStore emptyWorld"
    unfolding createPost_example by (simp add: worldAB_def emptyWorld_def)
  from createPost_order [of "bodyAB\<lparr>body_image := Some hugeFile\<rparr>" cloudUp 1 emptyWorld]
    invalid_hugeFile
  have a: "snd (createPost cloudUp 1 (bodyAB\<lparr>body_image := Some hugeFile\<rparr>) emptyWorld) = emptyWorld"
    by auto
  from createPost_order [of bodyAB cloudDown 1 emptyWorld] validCreateBody_bodyAB i u(1)
  have b: "createPost cloudDown 1 bodyAB emptyWorld
       = (ServerError500 UploadFailed, emptyWorld\<lparr>trace := trace emptyWorld @ [CloudUpload pngFile]\<rparr>)"
    by auto
  from a b c u(2) invalid_hugeFile validCreateBody_bodyAB show ?thesis
    by simp
qed

section \<open>Updating a post\<close>

text \<open>
  Claim C1. For every update of an existing post: when the tags field gives no names (it is
  absent, the empty string, an empty array or no string or array at all), the post's tag list
  after the update is its tag list before; when it gives names and the update succeeds, the
  tag list is the list of ids that the tag loop returned, one per name and each the id of a
  stored tag with the slug of that name. A tag list that is not empty is never empty
  afterwards.
\<close>

theorem updatePost_tags:
  assumes p: "Post_findById postId (postStore w) = Some p"
  shows "\<exists>q. Post_findById postId (postStore (snd (updatePost cloud now (ObjectId postId) body w))) = Some q
     \<and> (tagArray (body_tags body) = [] \<longrightarrow> tags q = tags p)
     \<and> (tagArray (body_tags body) \<noteq> [] \<and> (\<exists>x. fst (updatePost cloud now (ObjectId postId) body w) = Ok200 x) \<longrightarrow>
          (\<exists>w1 w2. processTags (body_tags body) w1 = (Inr (tags q), w2)
              \<and> tagStore w1 = tagStore w \<and> nextId w1 = nextId w)
          \<and> list_all2 (\<lambda>i n. \<exists>t\<in>set (tagStore (snd (updatePost cloud now (ObjectId postId) body w))).
                              tag_id t = i \<and> tag_slug t = slugify n)
               (tags q) (tagArray (body_tags body)))
     \<and> (tags p \<noteq> [] \<longrightarrow> tags q \<noteq> [])"
  using p
proof (cases rule: updatePost_found [of postId w p cloud body now])
  case (image resp w1)
  with p newImageUrl_effect [OF image(1)] newImageUrl_Inl_not_Ok [OF image(1)] show ?thesis
    by simp
next
  case (tags url w1 e w2)
  with p newImageUrl_effect [OF tags(1)] processTags_effect [OF tags(2)] show ?thesis
    by simp
next
  case (invalid url w1 ids w2)
  with p newImageUrl_effect [OF invalid(1)] processTags_effect [OF invalid(2)] show ?thesis
    by simp
next
  case (updated url w1 ids w2 t' q)
  note e1 = newImageUrl_effect [OF updated(1)]
  note l = processTags_ids [OF updated(2)]
  have a: "tagArray (body_tags body) = [] \<Longrightarrow> tags q = tags p"
    using l updated(4) by simp
  have b: "tagArray (body_tags body) \<noteq> [] \<Longrightarrow> tags q = ids"
    using l updated(4) by (auto simp add: list_all2_Nil)
  have c: "tags p \<noteq> [] \<Longrightarrow> tags q \<noteq> []"
    using updated(4) by simp
  have d: "tagArray (body_tags body) \<noteq> [] \<Longrightarrow>
      (\<exists>w1 w2. processTags (body_tags body) w1 = (Inr (tags q), w2)
              \<and> tagStore w1 = tagStore w \<and> nextId w1 = nextId w)"
    using b updated(2) e1 by auto
  from updated(5,6) a b c d l show ?thesis
    by auto
qed

theorem updatePost_tags_witness:
  "Post_findById 2 (postStore worldAB) = Some postT
   \<and> tagArray (TagsString '''') = []
   \<and> map_option tags (Post_findById 2 (postStore (snd (updatePost cloudUp 5 (ObjectId 2)
         (bodyAB\<lparr>body_tags := TagsString '''', body_image := None\<rparr>) worldAB)))) = Some [0, 1]
   \<and> tagArray (TagsArray [''C'']) \<noteq> []
   \<and> fst (updatePost cloudUp 5 (ObjectId 2) (bodyAB\<lparr>body_tags := TagsArray [''C''], body_image := None\<rparr>) worldAB)
       = Ok200 (Some (postT\<lparr>tags := [3], updatedAt := 5\<rparr>,
                      [\<lparr>tag_id = 3, tag_name = ''C'', tag_slug = ''c''\<rparr>]))
   \<and> length (the (map_option tags (Post_findById 2 (postStore (snd (updatePost cloudUp 5 (ObjectId 2)
         (bodyAB\<lparr>body_tags := TagsArray [''C''], body_image := None\<rparr>) worldAB)))))) = 1"
proof -
  let ?b0 = "bodyAB\<lparr>body_tags := TagsString '''', body_image := None\<rparr>"
  let ?b1 = "bodyAB\<lparr>body_tags := TagsArray [''C''], body_image := None\<rparr>"
  have t: "tags postT = [0, 1]"
    by (simp add: postT_def)
  from updatePost_tags [OF findById_worldAB, of cloudUp 5 ?b0] t
  have a: "map_option tags (Post_findById 2 (postStore (snd (updatePost cloudUp 5 (ObjectId 2) ?b0 worldAB))))
             = Some [0, 1]"
    by (auto simp add: bodyAB_def)
  have ok: "fst (updatePost cloudUp 5 (ObjectId 2) ?b1 worldAB)
       = Ok200 (Some (postT\<lparr>tags := [3], updatedAt := 5\<rparr>,
                      [\<lparr>tag_id = 3, tag_name = ''C'', tag_slug = ''c''\<rparr>]))"
    by (simp add: updatePost_def eval_defs)
  from updatePost_tags [OF findById_worldAB, of cloudUp 5 ?b1] ok
  have b: "length (the (map_option tags (Post_findById 2 (postStore (snd (updatePost cloudUp 5 (ObjectId 2)
         ?b1 worldAB)))))) = 1"
    by (auto simp add: bodyAB_def dest: list_all2_lengthD)
  from a b ok findById_worldAB show ?thesis
    by simp
qed

text \<open>
  Claim C2, as amended. For every update of an existing post that supplies a new valid
  image: the upload is called first; the previous image is deleted from the blob service
  only after the upload has succeeded, and before the record is updated. When that deletion
  fails the request ends with a 500 and nothing after the two blob calls has happened: the
  post record is as it was before the request. When it succeeds, the tags are resolved and
  then the record is updated with the new URL, or not at all.
\<close>

theorem updatePost_image_order:
  assumes p: "Post_findById postId (postStore w) = Some p"
    and f: "body_image body = Some f"
    and v: "startsWith (mimetype f) ''image/''" "file_size f \<le> 5 * 1024 * 1024"
  shows "case uploader_upload cloud f of
           None \<Rightarrow>
             updatePost cloud now (ObjectId postId) body w
               = (ServerError500 UploadFailed, w\<lparr>trace := trace w @ [CloudUpload f]\<rparr>)
         | Some url \<Rightarrow>
             if uploader_destroy cloud (fullPublicId (imageUrl p))
             then \<exists>ts. tagStore (snd (updatePost cloud now (ObjectId postId) body w)) = tagStore w @ ts
                  \<and> ((postStore (snd (updatePost cloud now (ObjectId postId) body w)) = postStore w
                       \<and> (\<forall>x. fst (updatePost cloud now (ObjectId postId) body w) \<noteq> Ok200 x)
                       \<and> trace (snd (updatePost cloud now (ObjectId postId) body w))
                           = trace w @ CloudUpload f # CloudDestroy (fullPublicId (imageUrl p))
                               # map (\<lambda>t. TagInsert (tag_id t)) ts)
                     \<or> (\<exists>q. Post_findById postId (postStore (snd (updatePost cloud now (ObjectId postId) body w)))
                               = Some q
                           \<and> imageUrl q = url
                           \<and> trace (snd (updatePost cloud now (ObjectId postId) body w))
                               = trace w @ CloudUpload f # CloudDestroy (fullPublicId (imageUrl p))
                                   # map (\<lambda>t. TagInsert (tag_id t)) ts @ [PostUpdate postId]))
             else updatePost cloud now (ObjectId postId) body w
                    = (ServerError500 DeleteFailed,
                       w\<lparr>trace := trace w @ [CloudUpload f, CloudDestroy (fullPublicId (imageUrl p))]\<rparr>)"
proof -
  note n = newImageUrl_valid_image [OF v, of cloud p w]
  show ?thesis
  proof (cases "uploader_upload cloud f")
    case None
    with n p f show ?thesis
      by (simp add: updatePost_def)
  next
    case (Some url)
    show ?thesis
    proof (cases "uploader_destroy cloud (fullPublicId (imageUrl p))")
      case False
      with n p f Some show ?thesis
        by (simp add: updatePost_def)
    next
      case True
      let ?w1 = "w\<lparr>trace := trace w @ [CloudUpload f, CloudDestroy (fullPublicId (imageUrl p))]\<rparr>"
      from n Some True f have n1: "newImageUrl cloud p (body_image body) w = (Inr url, ?w1)"
        by simp
      have "\<exists>ts. tagStore (snd (updatePost cloud now (ObjectId postId) body w)) = tagStore w @ ts
                  \<and> ((postStore (snd (updatePost cloud now (ObjectId postId) body w)) = postStore w
                       \<and> (\<forall>x. fst (updatePost cloud now (ObjectId postId) body w) \<noteq> Ok200 x)
                       \<and> trace (snd (updatePost cloud now (ObjectId postId) body w))
                           = trace w @ CloudUpload f # CloudDestroy (fullPublicId (imageUrl p))
                               # map (\<lambda>t. TagInsert (tag_id t)) ts)
                     \<or> (\<exists>q. Post_findById postId (postStore (snd (updatePost cloud now (ObjectId postId) body w)))
                               = Some q
                           \<and> imageUrl q = url
                           \<and> trace (snd (updatePost cloud now (ObjectId postId) body w))
                               = trace w @ CloudUpload f # CloudDestroy (fullPublicId (imageUrl p))
                                   # map (\<lambda>t. TagInsert (tag_id t)) ts @ [PostUpdate postId]))"
        using p
      proof (cases rule: updatePost_found [of postId w p cloud body now])
        case (image resp w1)
        with n1 show ?thesis by simp
      next
        case (tags url' w1 e w2)
        with n1 processTags_effect [OF tags(2)] show ?thesis by auto
      next
        case (invalid url' w1 ids w2)
        with n1 processTags_effect [OF invalid(2)] show ?thesis by auto
      next
        case (updated url' w1 ids w2 t' q)
        with n1 processTags_effect [OF updated(2)] show ?thesis by auto
      qed
      with Some True show ?thesis by simp
    qed
  qed
qed

lemma pngFile_valid:
  "startsWith (mimetype pngFile) ''image/''" "file_size pngFile \<le> 5 * 1024 * 1024"
  by (simp_all add: pngFile_def startsWith_def)

theorem updatePost_image_order_witness:
  "Post_findById 2 (postStore worldAB) = Some postT
   \<and> body_image (bodyAB\<lparr>body_title := Some ''New''\<rparr>) = Some pngFile
   \<and> startsWith (mimetype pngFile) ''image/''
   \<and> file_size pngFile \<le> 5 * 1024 * 1024
   \<and> updatePost cloudDown 5 (ObjectId 2) (bodyAB\<lparr>body_title := Some ''New''\<rparr>) worldAB
       = (ServerError500 UploadFailed, worldAB\<lparr>trace := trace worldAB @ [CloudUpload pngFile]\<rparr>)
   \<and> updatePost cloudNoDestroy 5 (ObjectId 2) (bodyAB\<lparr>body_title := Some ''New''\<rparr>) worldAB
       = (ServerError500 DeleteFailed,
          worldAB\<lparr>trace := trace worldAB @ [CloudUpload pngFile, CloudDestroy ''posts-api/abc'']\<rparr>)"
proof -
  let ?b = "bodyAB\<lparr>body_title := Some ''New''\<rparr>"
  have i: "body_image ?b = Some pngFile"
    by (simp add: bodyAB_def)
  have u: "uploader_upload cloudDown pngFile = None"
    "uploader_upload cloudNoDestroy pngFile = Some ''https://cdn/posts-api/abc.png''"
    "\<not> uploader_destroy cloudNoDestroy ''posts-api/abc''"
    by (simp_all add: cloudDown_def cloudNoDestroy_def pngFile_def)
  from updatePost_image_order [OF findById_worldAB i pngFile_valid, of cloudDown 5] u(1)
  have a: "updatePost cloudDown 5 (ObjectId 2) ?b worldAB
       = (ServerError500 UploadFailed, worldAB\<lparr>trace := trace worldAB @ [CloudUpload pngFile]\<rparr>)"
    by simp
  from updatePost_image_order [OF findById_worldAB i pngFile_valid, of cloudNoDestroy 5] u(2,3)
  have b: "updatePost cloudNoDestroy 5 (ObjectId 2) ?b worldAB
       = (ServerError500 DeleteFailed,
          worldAB\<lparr>trace := trace worldAB @ [CloudUpload pngFile, CloudDestroy ''posts-api/abc'']\<rparr>)"
    by (simp add: fullPublicId_postT)
  from a b i findById_worldAB pngFile_valid show ?thesis
    by simp
qed

text \<open>
  The claim as stated fails: with a blob service whose deletions fail, an update of the post
  of \<open>worldAB\<close> with a new image and the new title \<^verbatim>\<open>New\<close> ends with a 500, and the stored post
  still is \<open>postT\<close>, with the title \<^verbatim>\<open>T\<close>: the record update has not been applied.
\<close>

theorem updatePost_delete_failure_counterexample:
  "fst (updatePost cloudNoDestroy 5 (ObjectId 2) (bodyAB\<lparr>body_title := Some ''New''\<rparr>) worldAB)
     = ServerError500 DeleteFailed
   \<and> Post_findById 2 (postStore (snd (updatePost cloudNoDestroy 5 (ObjectId 2)
         (bodyAB\<lparr>body_title := Some ''New''\<rparr>) worldAB))) = Some postT
   \<and> title postT = ''T''"
proof -
  have n: "newImageUrl cloudNoDestroy postT (Some pngFile) worldAB
     = (Inl (ServerError500 DeleteFailed),
        worldAB\<lparr>trace := trace worldAB @ [CloudUpload pngFile, CloudDestroy ''posts-api/abc'']\<rparr>)"
    unfolding newImageUrl_valid_image [OF pngFile_valid] fullPublicId_postT
    by (simp add: cloudNoDestroy_def)
  have "updatePost cloudNoDestroy 5 (ObjectId 2) (bodyAB\<lparr>body_title := Some ''New''\<rparr>) worldAB
     = (ServerError500 DeleteFailed,
        worldAB\<lparr>trace := trace worldAB @ [CloudUpload pngFile, CloudDestroy ''posts-api/abc'']\<rparr>)"
    by (simp add: updatePost_def findById_worldAB n bodyAB_def)
  then show ?thesis
    by (simp add: findById_worldAB) (simp add: postT_def)
qed

section \<open>Stored titles are trimmed\<close>

lemma dropWhile_fixed: "xs = [] \<or> \<not> P (hd xs) \<Longrightarrow> dropWhile P xs = xs"
  by (cases xs) auto

lemma trim_idem: "trim (trim s) = trim s"
proof -
  define a where "a = dropWhile isWhiteSpace s"
  define b where "b = rev (dropWhile isWhiteSpace (rev a))"
  have ab: "a = b @ rev (takeWhile isWhiteSpace (rev a))"
  proof -
    have "rev (takeWhile isWhiteSpace (rev a) @ dropWhile isWhiteSpace (rev a)) = a"
      by (simp only: takeWhile_dropWhile_id rev_rev_ident)
    then show ?thesis
      by (simp only: rev_append b_def)
  qed
  have ha: "a = [] \<or> \<not> isWhiteSpace (hd a)"
    unfolding a_def using hd_dropWhile [of isWhiteSpace s] by blast
  have hb: "b = [] \<or> \<not> isWhiteSpace (hd b)"
  proof (cases b)
    case Nil
    then show ?thesis by simp
  next
    case (Cons x xs)
    with ab have "hd a = hd b" "a \<noteq> []"
      by (metis hd_append2 list.distinct(1), metis Nil_is_append_conv list.distinct(1))
    with ha show ?thesis by simp
  qed
  have lb: "rev b = [] \<or> \<not> isWhiteSpace (hd (rev b))"
    unfolding b_def using hd_dropWhile [of isWhiteSpace "rev a"] by auto
  have "dropWhile isWhiteSpace b = b"
    using hb by (rule dropWhile_fixed)
  moreover have "dropWhile isWhiteSpace (rev b) = rev b"
    using lb by (rule dropWhile_fixed)
  ultimately have "trim b = b"
    unfolding trim_def by (simp only: rev_rev_ident)
  moreover have "trim s = b"
    by (simp add: trim_def a_def b_def)
  ultimately show ?thesis by simp
qed

lemma set_updateFirst: "set (updateFirst P f xs) \<subseteq> set xs \<union> f ` set xs"
  by (induction xs) auto

lemma set_removeFirst: "set (removeFirst P xs) \<subseteq> set xs"
  by (induction xs) auto

lemma Post_validate_trimmed: "Post_validate t d u = Some t' \<Longrightarrow> trim t' = t'"
  by (auto simp add: Post_validate_def Let_def trim_idem split: if_splits)

lemma createPost_titlesTrimmed:
  assumes "titlesTrimmed w"
  shows "titlesTrimmed (snd (createPost cloud now body w))"
proof (cases "validCreateBody body")
  case False
  from createPost_invalid [OF this, of cloud now w] assms show ?thesis by auto
next
  case True
  then obtain f where f: "body_image body = Some f"
    by (auto simp add: validCreateBody_def split: option.splits)
  let ?w1 = "w\<lparr>trace := trace w @ [CloudUpload f]\<rparr>"
  show ?thesis
  proof (cases "uploader_upload cloud f")
    case None
    from createPost_upload_fails [OF True f None, of now w] assms show ?thesis
      by (simp add: titlesTrimmed_def)
  next
    case (Some url)
    obtain r2 w2 where p2: "processTags (body_tags body) ?w1 = (r2, w2)"
      by (cases "processTags (body_tags body) ?w1")
    from processTags_effect [OF p2] assms have w2: "titlesTrimmed w2"
      by (simp add: titlesTrimmed_def)
    show ?thesis
    proof (cases r2)
      case (Inl e)
      with True f Some p2 have "snd (createPost cloud now body w) = w2"
        by (simp add: createPost_def validCreateBody_def uploadToCloud_def)
      with w2 show ?thesis by simp
    next
      case (Inr tagIds)
      with True f Some p2 w2 show ?thesis
        by (auto simp add: createPost_def validCreateBody_def uploadToCloud_def Post_create_def
            titlesTrimmed_def Let_def dest: Post_validate_trimmed split: option.splits)
    qed
  qed
qed

lemma updatePost_titlesTrimmed_id:
  assumes "titlesTrimmed w"
  shows "titlesTrimmed (snd (updatePost cloud now (ObjectId postId) body w))"
proof (cases "Post_findById postId (postStore w)")
  case None
  with assms show ?thesis by (simp add: updatePost_def)
next
  case (Some p)
  then show ?thesis
  proof (cases rule: updatePost_found [of postId w p cloud body now])
    case (image resp w1)
    with assms newImageUrl_effect [OF image(1)] show ?thesis
      by (simp add: titlesTrimmed_def)
  next
    case (tags url w1 e w2)
    with assms newImageUrl_effect [OF tags(1)] processTags_effect [OF tags(2)] show ?thesis
      by (simp add: titlesTrimmed_def)
  next
    case (invalid url w1 ids w2)
    with assms newImageUrl_effect [OF invalid(1)] processTags_effect [OF invalid(2)] show ?thesis
      by (simp add: titlesTrimmed_def)
  next
    case (updated url w1 ids w2 t' q)
    from Post_validate_trimmed [OF updated(3)] updated(4) have "trim (title q) = title q"
      by simp
    with assms set_updateFirst [of "\<lambda>x. post_id x = postId" "\<lambda>_. q" "postStore w"] updated(5)
    show ?thesis
      by (auto simp add: titlesTrimmed_def list_all_iff)
  qed
qed

lemma updatePost_titlesTrimmed:
  assumes "titlesTrimmed w"
  shows "titlesTrimmed (snd (updatePost cloud now rawId body w))"
proof (cases rawId)
  case (ObjectId postId)
  with updatePost_titlesTrimmed_id [OF assms, of cloud now postId body] show ?thesis
    by simp
next
  case (NotObjectId s)
  with assms show ?thesis
    by (simp add: updatePost_def)
qed

lemma deletePost_titlesTrimmed:
  assumes "titlesTrimmed w"
  shows "titlesTrimmed (snd (deletePost cloud rawId w))"
proof (cases rawId)
  case (ObjectId postId)
  with assms set_removeFirst [of "\<lambda>p. post_id p = postId" "postStore w"] show ?thesis
    by (auto simp add: deletePost_def deleteFromCloud_def Post_findByIdAndDelete_def
        titlesTrimmed_def list_all_iff split: option.splits bool.splits)
next
  case (NotObjectId s)
  with assms show ?thesis
    by (simp add: deletePost_def)
qed

lemma createTag_postStore: "postStore (snd (createTag name w)) = postStore w"
  by (auto simp add: createTag_def Tag_create_def Let_def split: option.splits)

lemma step_titlesTrimmed: "titlesTrimmed w \<Longrightarrow> titlesTrimmed (step cloud w r)"
  by (cases r)
    (simp_all add: createPost_titlesTrimmed updatePost_titlesTrimmed deletePost_titlesTrimmed,
     simp add: titlesTrimmed_def createTag_postStore)

lemma run_titlesTrimmed: "titlesTrimmed w \<Longrightarrow> titlesTrimmed (run cloud w rs)"
  unfolding run_def by (induction rs arbitrary: w) (simp_all add: step_titlesTrimmed)

lemma titlesTrimmed_emptyWorld: "titlesTrimmed (run cloud emptyWorld rs)"
  by (rule run_titlesTrimmed) (simp add: titlesTrimmed_def emptyWorld_def)

text \<open>
  Claim C10. An update whose title is the empty string is the update with the title omitted,
  and the same for the description. For every update of an existing post: when the title
  supplied is empty or omitted, the stored title afterwards is the stored title before (a
  stored title being trimmed, as every title written through the model is); when the
  description supplied is empty or omitted, the stored description is unchanged. No update
  makes a title or a description empty that was not empty before.
\<close>

theorem updatePost_empty_fields:
  "updatePost cloud now rawId (body\<lparr>body_title := Some ''''\<rparr>) w
     = updatePost cloud now rawId (body\<lparr>body_title := None\<rparr>) w
   \<and> updatePost cloud now rawId (body\<lparr>body_description := Some ''''\<rparr>) w
     = updatePost cloud now rawId (body\<lparr>body_description := None\<rparr>) w
   \<and> (\<forall>p. Post_findById postId (postStore w) = Some p \<longrightarrow>
        (\<exists>q. Post_findById postId (postStore (snd (updatePost cloud now (ObjectId postId) body w))) = Some q
           \<and> (falsy (body_title body) \<and> trim (title p) = title p \<longrightarrow> title q = title p)
           \<and> (falsy (body_description body) \<longrightarrow> description q = description p)
           \<and> (title p \<noteq> [] \<longrightarrow> title q \<noteq> [])
           \<and> (description p \<noteq> [] \<longrightarrow> description q \<noteq> [])))"
proof (intro conjI allI impI)
  show "updatePost cloud now rawId (body\<lparr>body_title := Some ''''\<rparr>) w
     = updatePost cloud now rawId (body\<lparr>body_title := None\<rparr>) w"
    by (simp add: updatePost_def orElse_def cong: pathId.case_cong option.case_cong sum.case_cong
        prod.case_cong)
  show "updatePost cloud now rawId (body\<lparr>body_description := Some ''''\<rparr>) w
     = updatePost cloud now rawId (body\<lparr>body_description := None\<rparr>) w"
    by (simp add: updatePost_def orElse_def cong: pathId.case_cong option.case_cong sum.case_cong
        prod.case_cong)
next
  fix p
  assume p: "Post_findById postId (postStore w) = Some p"
  then show "\<exists>q. Post_findById postId (postStore (snd (updatePost cloud now (ObjectId postId) body w))) = Some q
           \<and> (falsy (body_title body) \<and> trim (title p) = title p \<longrightarrow> title q = title p)
           \<and> (falsy (body_description body) \<longrightarrow> description q = description p)
           \<and> (title p \<noteq> [] \<longrightarrow> title q \<noteq> [])
           \<and> (description p \<noteq> [] \<longrightarrow> description q \<noteq> [])"
  proof (cases rule: updatePost_found [of postId w p cloud body now])
    case (image resp w1)
    with p newImageUrl_effect [OF image(1)] show ?thesis by simp
  next
    case (tags url w1 e w2)
    with p newImageUrl_effect [OF tags(1)] processTags_effect [OF tags(2)] show ?thesis
      by simp
  next
    case (invalid url w1 ids w2)
    with p newImageUrl_effect [OF invalid(1)] processTags_effect [OF invalid(2)] show ?thesis
      by simp
  next
    case (updated url w1 ids w2 t' q)
    from updated(3) have t': "t' = trim (orElse (body_title body) (title p))" "t' \<noteq> []"
      and d: "orElse (body_description body) (description p) \<noteq> []"
      by (auto simp add: Post_validate_def Let_def split: if_splits)
    have a: "falsy (body_title body) \<Longrightarrow> orElse (body_title body) (title p) = title p"
      and b: "falsy (body_description body)
                \<Longrightarrow> orElse (body_description body) (description p) = description p"
      by (auto simp add: falsy_def orElse_def split: option.splits)
    from updated(4,5,6) t' d a b show ?thesis
      by simp
  qed
qed

theorem updatePost_empty_fields_witness:
  "Post_findById 2 (postStore worldAB) = Some postT
   \<and> falsy (Some '''')
   \<and> trim (title postT) = title postT
   \<and> map_option title (Post_findById 2 (postStore (snd (updatePost cloudUp 5 (ObjectId 2)
         (bodyAB\<lparr>body_title := Some '''', body_image := None\<rparr>) worldAB)))) = Some ''T''
   \<and> map_option description (Post_findById 2 (postStore (snd (updatePost cloudUp 5 (ObjectId 2)
         (bodyAB\<lparr>body_description := Some '''', body_image := None\<rparr>) worldAB)))) = Some ''D''"
proof -
  let ?b = "bodyAB\<lparr>body_title := Some '''', body_image := None\<rparr>"
  let ?c = "bodyAB\<lparr>body_description := Some '''', body_image := None\<rparr>"
  have f: "falsy (Some '''')"
    by (simp add: falsy_def)
  have t: "trim (title postT) = title postT" "title postT = ''T''" "description postT = ''D''"
    by (simp_all add: postT_def trim_examples)
  from updatePost_empty_fields [where cloud = cloudUp and now = 5 and postId = 2 and rawId = "ObjectId 2" and body = "?b"
      and w = worldAB] findById_worldAB f t
  have a: "map_option title (Post_findById 2 (postStore (snd (updatePost cloudUp 5 (ObjectId 2) ?b worldAB))))
             = Some ''T''"
    by (auto simp add: bodyAB_def)
  from updatePost_empty_fields [where cloud = cloudUp and now = 5 and postId = 2 and rawId = "ObjectId 2" and body = "?c"
      and w = worldAB] findById_worldAB f t
  have b: "map_option description
             (Post_findById 2 (postStore (snd (updatePost cloudUp 5 (ObjectId 2) ?c worldAB)))) = Some ''D''"
    by (auto simp add: bodyAB_def)
  from a b f t(1) findById_worldAB show ?thesis
    by simp
qed

section \<open>Resolving tag names\<close>

text \<open>A property of the tag collection that the loop body keeps is kept by every request.\<close>

lemma resolveTags_tagStore_inv:
  assumes step: "\<And>n w r w'. resolveTag n w = (r, w') \<Longrightarrow> Q (tagStore w) \<Longrightarrow> Q (tagStore w')"
  shows "resolveTags names acc w = (r, w') \<Longrightarrow> Q (tagStore w) \<Longrightarrow> Q (tagStore w')"
proof (induction names arbitrary: acc w)
  case Nil
  then show ?case by simp
next
  case (Cons n names)
  obtain r1 w1 where r1: "resolveTag n w = (r1, w1)"
    by (cases "resolveTag n w")
  from step [OF r1 Cons.prems(2)] have q1: "Q (tagStore w1)" .
  show ?case
  proof (cases r1)
    case (Inl e)
    with Cons.prems r1 q1 show ?thesis by simp
  next
    case (Inr i)
    with Cons.prems r1 have "resolveTags names (acc @ [i]) w1 = (r, w')" by simp
    from Cons.IH [OF this q1] show ?thesis .
  qed
qed

lemma processTags_tagStore_inv:
  assumes "\<And>n w r w'. resolveTag n w = (r, w') \<Longrightarrow> Q (tagStore w) \<Longrightarrow> Q (tagStore w')"
    and "Q (tagStore w)"
  shows "Q (tagStore (snd (processTags raw w)))"
  using resolveTags_tagStore_inv [of Q "tagArray raw" "[]" w "fst (processTags raw w)"
      "snd (processTags raw w)"] assms
  by (simp add: processTags_def)

lemma createPost_tagStore:
  "tagStore (snd (createPost cloud now body w)) = tagStore w
   \<or> (\<exists>w1. tagStore w1 = tagStore w
          \<and> tagStore (snd (createPost cloud now body w)) = tagStore (snd (processTags (body_tags body) w1)))"
proof (cases "validCreateBody body")
  case False
  from createPost_invalid [OF this, of cloud now w] show ?thesis by auto
next
  case True
  then obtain f where f: "body_image body = Some f"
    by (auto simp add: validCreateBody_def split: option.splits)
  let ?w1 = "w\<lparr>trace := trace w @ [CloudUpload f]\<rparr>"
  show ?thesis
  proof (cases "uploader_upload cloud f")
    case None
    from createPost_upload_fails [OF True f None, of now w] show ?thesis by simp
  next
    case (Some url)
    have "tagStore (snd (createPost cloud now body w)) = tagStore (snd (processTags (body_tags body) ?w1))"
      using True f Some
      by (auto simp add: createPost_def validCreateBody_def uploadToCloud_def Post_create_def Let_def
          split: option.splits prod.splits sum.splits)
    moreover have "tagStore ?w1 = tagStore w" by simp
    ultimately show ?thesis by blast
  qed
qed

lemma updatePost_tagStore_id:
  "tagStore (snd (updatePost cloud now (ObjectId postId) body w)) = tagStore w
   \<or> (\<exists>w1. tagStore w1 = tagStore w
          \<and> tagStore (snd (updatePost cloud now (ObjectId postId) body w)) = tagStore (snd (processTags (body_tags body) w1)))"
proof (cases "Post_findById postId (postStore w)")
  case None
  then show ?thesis by (simp add: updatePost_def)
next
  case (Some p)
  then show ?thesis
  proof (cases rule: updatePost_found [of postId w p cloud body now])
    case (image resp w1)
    with newImageUrl_effect [OF image(1)] show ?thesis by simp
  next
    case (tags url w1 e w2)
    with newImageUrl_effect [OF tags(1)] show ?thesis by (intro disjI2 exI [of _ w1]) simp
  next
    case (invalid url w1 ids w2)
    with newImageUrl_effect [OF invalid(1)] show ?thesis by (intro disjI2 exI [of _ w1]) simp
  next
    case (updated url w1 ids w2 t' q)
    with newImageUrl_effect [OF updated(1)] show ?thesis by (intro disjI2 exI [of _ w1]) simp
  qed
qed

lemma updatePost_tagStore:
  "tagStore (snd (updatePost cloud now rawId body w)) = tagStore w
   \<or> (\<exists>w1. tagStore w1 = tagStore w
          \<and> tagStore (snd (updatePost cloud now rawId body w))
              = tagStore (snd (processTags (body_tags body) w1)))"
proof (cases rawId)
  case (ObjectId postId)
  with updatePost_tagStore_id [of cloud now postId body w] show ?thesis
    by simp
next
  case (NotObjectId s)
  then show ?thesis
    by (simp add: updatePost_def)
qed

lemma deletePost_tagStore: "tagStore (snd (deletePost cloud rawId w)) = tagStore w"
  by (auto simp add: deletePost_def deleteFromCloud_def Post_findByIdAndDelete_def
      split: pathId.splits option.splits bool.splits)

lemma createTag_world:
  "snd (createTag name w) = (if falsy name then w else snd (resolveTag (the name) w))"
  by (auto simp add: createTag_def resolveTag_def Let_def split: option.splits prod.splits sum.splits)

lemma step_tagStore_inv:
  assumes s: "\<And>n w r w'. resolveTag n w = (r, w') \<Longrightarrow> Q (tagStore w) \<Longrightarrow> Q (tagStore w')"
    and q: "Q (tagStore w)"
  shows "Q (tagStore (step cloud w req))"
proof (cases req)
  case (CreatePost now body)
  with createPost_tagStore [of cloud now body w] q processTags_tagStore_inv [of Q _ "body_tags body", OF s]
  show ?thesis by auto
next
  case (UpdatePost now postId body)
  with updatePost_tagStore [of cloud now postId body w] q
    processTags_tagStore_inv [of Q _ "body_tags body", OF s]
  show ?thesis by auto
next
  case (DeletePost postId)
  with q show ?thesis by (simp add: deletePost_tagStore)
next
  case (CreateTag name)
  with q s [of "the name" w "fst (resolveTag (the name) w)" "snd (resolveTag (the name) w)"]
  show ?thesis by (simp add: createTag_world)
next
  case (GetPosts x)
  with q show ?thesis by simp
next
  case (SearchPosts x)
  with q show ?thesis by simp
qed

lemma run_tagStore_inv:
  assumes s: "\<And>n w r w'. resolveTag n w = (r, w') \<Longrightarrow> Q (tagStore w) \<Longrightarrow> Q (tagStore w')"
  shows "Q (tagStore w) \<Longrightarrow> Q (tagStore (run cloud w rs))"
  unfolding run_def
proof (induction rs arbitrary: w)
  case Nil
  then show ?case by simp
next
  case (Cons r rs)
  from step_tagStore_inv [of Q w cloud r, OF s Cons.prems] have "Q (tagStore (step cloud w r))" .
  from Cons.IH [OF this] show ?case by simp
qed

lemma run_distinct_slugs:
  "distinct (map tag_slug (tagStore w)) \<Longrightarrow> distinct (map tag_slug (tagStore (run cloud w rs)))"
  by (rule run_tagStore_inv [where Q = "\<lambda>ts. distinct (map tag_slug ts)"])
    (rule resolveTag_effect(5))

lemma run_tagStore_grows: "\<exists>ts. tagStore (run cloud w rs) = tagStore w @ ts"
proof (rule run_tagStore_inv [where Q = "\<lambda>x. \<exists>ts. x = tagStore w @ ts"])
  fix n w0 r w'
  assume "resolveTag n w0 = (r, w')" "\<exists>ts. tagStore w0 = tagStore w @ ts"
  with resolveTag_effect(2) [of n w0 r w'] show "\<exists>ts. tagStore w' = tagStore w @ ts"
    by auto
qed simp

lemma resolveTag_found:
  "Tag_findOne (slugify n) (tagStore w) = Some t \<Longrightarrow> resolveTag n w = (Inr (tag_id t), w)"
  by (simp add: resolveTag_def)

lemma resolveTag_then_found:
  assumes "resolveTag n w = (Inr i, w1)"
  shows "\<exists>t. Tag_findOne (slugify n) (tagStore w1) = Some t \<and> tag_id t = i"
  using resolveTag_cases [OF assms]
  by (auto simp add: Tag_findOne_append) (simp add: Tag_findOne_def toLowerCase_slugify)

text \<open>
  Claim C8. From any world, when resolving a tag name returns an id, at most one tag has been
  created, and resolving the same name again returns the same id and creates nothing: at
  once, and after any sequence of requests in between. A resolution that fails creates
  nothing. And when no two tags share a slug, no two tags share a slug after any sequence
  of requests.
\<close>

theorem resolveTag_idempotent:
  "(\<forall>i w1. resolveTag name w = (Inr i, w1) \<longrightarrow>
       length (tagStore w1) \<le> Suc (length (tagStore w))
     \<and> resolveTag name w1 = (Inr i, w1)
     \<and> (\<forall>rs. resolveTag name (run cloud w1 rs) = (Inr i, run cloud w1 rs)))
   \<and> (\<forall>e w1. resolveTag name w = (Inl e, w1) \<longrightarrow> w1 = w)
   \<and> (distinct (map tag_slug (tagStore w))
        \<longrightarrow> distinct (map tag_slug (tagStore (run cloud w rs))))"
proof (intro conjI allI impI)
  fix i w1
  assume r: "resolveTag name w = (Inr i, w1)"
  from resolveTag_effect(2) [OF r] show "length (tagStore w1) \<le> Suc (length (tagStore w))"
    by auto
  from resolveTag_then_found [OF r] obtain t
    where t: "Tag_findOne (slugify name) (tagStore w1) = Some t" "tag_id t = i"
    by blast
  then show "resolveTag name w1 = (Inr i, w1)"
    by (simp add: resolveTag_found)
  fix rs
  from run_tagStore_grows [of cloud w1 rs] obtain ts
    where "tagStore (run cloud w1 rs) = tagStore w1 @ ts"
    by blast
  with t have "Tag_findOne (slugify name) (tagStore (run cloud w1 rs)) = Some t"
    by (simp add: Tag_findOne_append)
  with t(2) show "resolveTag name (run cloud w1 rs) = (Inr i, run cloud w1 rs)"
    by (simp add: resolveTag_found)
next
  fix e w1
  assume "resolveTag name w = (Inl e, w1)"
  from resolveTag_effect(4) [OF this] show "w1 = w"
    by simp
next
  assume "distinct (map tag_slug (tagStore w))"
  then show "distinct (map tag_slug (tagStore (run cloud w rs)))"
    by (rule run_distinct_slugs)
qed

theorem resolveTag_idempotent_witness:
  "resolveTag ''C'' worldAB
     = (Inr 3, worldAB\<lparr>tagStore := [tagA, tagB, \<lparr>tag_id = 3, tag_name = ''C'', tag_slug = ''c''\<rparr>],
                       nextId := 4, trace := trace worldAB @ [TagInsert 3]\<rparr>)
   \<and> resolveTag ''C''
        (run cloudUp
           (worldAB\<lparr>tagStore := [tagA, tagB, \<lparr>tag_id = 3, tag_name = ''C'', tag_slug = ''c''\<rparr>],
                    nextId := 4, trace := trace worldAB @ [TagInsert 3]\<rparr>)
           [CreateTag (Some ''A''), DeletePost (ObjectId 2)])
     = (Inr 3,
        run cloudUp
           (worldAB\<lparr>tagStore := [tagA, tagB, \<lparr>tag_id = 3, tag_name = ''C'', tag_slug = ''c''\<rparr>],
                    nextId := 4, trace := trace worldAB @ [TagInsert 3]\<rparr>)
           [CreateTag (Some ''A''), DeletePost (ObjectId 2)])
   \<and> resolveTag '''' worldAB = (Inl TagValidation, worldAB)
   \<and> distinct (map tag_slug (tagStore worldAB))
   \<and> distinct (map tag_slug (tagStore (run cloudUp worldAB [CreateTag (Some ''C'')])))"
proof -
  let ?w = "worldAB\<lparr>tagStore := [tagA, tagB, \<lparr>tag_id = 3, tag_name = ''C'', tag_slug = ''c''\<rparr>],
                    nextId := 4, trace := trace worldAB @ [TagInsert 3]\<rparr>"
  have r: "resolveTag ''C'' worldAB = (Inr 3, ?w)"
    by (simp add: eval_defs)
  have e: "resolveTag '''' worldAB = (Inl TagValidation, worldAB)"
    by (simp add: resolveTag_def Tag_findOne_def Tag_create_def worldAB_def tagA_def tagB_def
        slugify_def toLowerCase_def trim_def)
  have d: "distinct (map tag_slug (tagStore worldAB))"
    by (simp add: worldAB_def tagA_def tagB_def)
  from resolveTag_idempotent [of "''C''" worldAB cloudUp "[]"] r
  have a: "resolveTag ''C'' (run cloudUp ?w [CreateTag (Some ''A''), DeletePost (ObjectId 2)])
             = (Inr 3, run cloudUp ?w [CreateTag (Some ''A''), DeletePost (ObjectId 2)])"
    by blast
  from resolveTag_idempotent [of "''C''" worldAB cloudUp "[CreateTag (Some ''C'')]"] d
  have b: "distinct (map tag_slug (tagStore (run cloudUp worldAB [CreateTag (Some ''C'')])))"
    by blast
  from r a e d b show ?thesis
    by simp
qed

section \<open>Listing posts\<close>

lemma parseInt_examples:
  "parseInt ''undefined'' 0 = None" "parseInt ''-5'' 0 = Some (- 5)" "parseInt ''abc'' 0 = None"
  "parseInt ''2'' 0 = Some 2" "parseInt ''0'' 0 = Some 0" "parseInt ''1'' 10 = Some 1"
  "parseInt ''10'' 10 = Some 10"
  by code_simp+

text \<open>
  Claim C3 as stated fails: a listing request with \<^verbatim>\<open>page=-5\<close> keeps the page \<open>-5\<close>, which is
  not positive, and computes the skip \<open>-60\<close>.
\<close>

theorem listPage_negative_counterexample:
  "query_page negativePageQuery = Some ''-5''
   \<and> listPage negativePageQuery = - 5
   \<and> listLimit negativePageQuery = 10
   \<and> listSkip negativePageQuery = - 60"
  by (simp add: listSkip_def listPage_def listLimit_def negativePageQuery_def toString_def
      numberOr_def parseInt_examples)

text \<open>
  Claim C3, as amended. For every listing request, a page or limit parameter that is absent,
  that \<^verbatim>\<open>parseInt\<close> cannot read (NaN) or that reads as 0 falls back to its default (page 1,
  limit 10), each field on its own and with no error; a parameter that reads as an integer
  other than 0, a negative one too, is used as read. So page and limit are never 0, and the
  skip is \<open>(page - 1) * limit\<close>. For every search request, an absent page or limit is
  replaced by its default.
\<close>

theorem pagination_defaults:
  "(parseInt (toString (query_page q)) 0 = None \<or> parseInt (toString (query_page q)) 0 = Some 0
      \<longrightarrow> listPage q = 1)
   \<and> (\<forall>n. parseInt (toString (query_page q)) 0 = Some n \<and> n \<noteq> 0 \<longrightarrow> listPage q = n)
   \<and> (query_page q = None \<longrightarrow> listPage q = 1)
   \<and> (parseInt (toString (query_limit q)) 0 = None \<or> parseInt (toString (query_limit q)) 0 = Some 0
      \<longrightarrow> listLimit q = 10)
   \<and> (\<forall>n. parseInt (toString (query_limit q)) 0 = Some n \<and> n \<noteq> 0 \<longrightarrow> listLimit q = n)
   \<and> (query_limit q = None \<longrightarrow> listLimit q = 10)
   \<and> listPage (q\<lparr>query_limit := l\<rparr>) = listPage q
   \<and> listLimit (q\<lparr>query_page := pg\<rparr>) = listLimit q
   \<and> listPage q \<noteq> 0 \<and> listLimit q \<noteq> 0
   \<and> listSkip q = (listPage q - 1) * listLimit q
   \<and> (search_page s = None \<longrightarrow> searchPageNum s = Some 1)
   \<and> (search_limit s = None \<longrightarrow> searchLimitNum s = Some 10)"
  by (auto simp add: listPage_def listLimit_def listSkip_def numberOr_def toString_def
      searchPageNum_def searchLimitNum_def parseInt_examples split: option.splits)

theorem pagination_defaults_witness:
  "parseInt (toString (query_limit unknownTagQuery)) 0 = None
   \<and> listLimit unknownTagQuery = 10
   \<and> parseInt (toString (query_page unknownTagQuery)) 0 = Some 2
   \<and> listPage unknownTagQuery = 2
   \<and> listSkip unknownTagQuery = 10
   \<and> query_page emptyTagsQuery = None
   \<and> listPage emptyTagsQuery = 1
   \<and> search_page dotQuery = None
   \<and> searchPageNum dotQuery = Some 1
   \<and> search_limit dotQuery = None
   \<and> searchLimitNum dotQuery = Some 10"
proof -
  have l: "parseInt (toString (query_limit unknownTagQuery)) 0 = None"
    and p: "parseInt (toString (query_page unknownTagQuery)) 0 = Some 2"
    by (simp_all add: unknownTagQuery_def toString_def parseInt_examples)
  have e: "query_page emptyTagsQuery = None"
    by (simp add: emptyTagsQuery_def)
  have d: "search_page dotQuery = None" "search_limit dotQuery = None"
    by (simp_all add: dotQuery_def)
  from pagination_defaults [of unknownTagQuery _ _ dotQuery] l p d
  have a: "listLimit unknownTagQuery = 10" "listPage unknownTagQuery = 2"
    "listSkip unknownTagQuery = (listPage unknownTagQuery - 1) * listLimit unknownTagQuery"
    "searchPageNum dotQuery = Some 1" "searchLimitNum dotQuery = Some 10"
    by simp_all
  from pagination_defaults [of emptyTagsQuery _ _ dotQuery] e
  have b: "listPage emptyTagsQuery = 1"
    by simp
  from a b l p e d show ?thesis
    by simp
qed

lemma sortPosts_Nil: "sortPosts sortBy sortOrder [] = []"
  by (simp add: sortPosts_def)

lemma listLimit_nonzero: "listLimit q \<noteq> 0"
  by (simp add: listLimit_def numberOr_def split: option.splits)

text \<open>
  Claim C7, as amended. For every listing request whose tag filter is a string that is not
  empty, and none of whose slugs (the pieces between the commas, trimmed and lower-cased, as
  the query's cast lower-cases them) is the slug of a stored tag: the filter built is
  \<^verbatim>\<open>{ tags: { $in: [] } }\<close>, which no post matches, whatever the post collection holds.
  Building it raises no error. The response is a success with an empty list and the total
  0, except that a negative skip (a negative page or limit) makes the store reject the
  query, as it does for every filter.
\<close>

theorem getPosts_unknown_tags:
  assumes s: "query_tags q = Some s" "s \<noteq> []"
    and u: "\<forall>t\<in>set (tagStore w).
              tag_slug t \<notin> set (map toLowerCase (map trim (split CHR '','' s)))"
  shows "listFilter q (tagStore w) = Some []
     \<and> filter (Post_matches (listFilter q (tagStore w))) (postStore w) = []
     \<and> (if listSkip q < 0 then getPosts q w = ServerError500 QueryRejected
         else getPosts q w
                = Ok200 \<lparr>env_data = [], env_page = Some (listPage q),
                         env_limit = Some (listLimit q), env_total = 0, env_pages = Some 0\<rparr>)"
proof -
  from u have "Tag_find_in (map trim (split CHR '','' s)) (tagStore w) = []"
    by (auto simp add: Tag_find_in_def filter_empty_conv)
  with s have f: "listFilter q (tagStore w) = Some []"
    by (simp add: listFilter_def)
  have m: "filter (Post_matches (Some [])) (postStore w) = []"
    by (simp add: Post_matches_def)
  from f m listLimit_nonzero [of q] show ?thesis
    by (simp add: getPosts_def Let_def sortPosts_Nil skipLimit_def pagesOf_def)
qed

lemma split_unknown:
  "map toLowerCase (map trim (split CHR '','' ''nonexistent-slug'')) = [''nonexistent-slug'']"
  by code_simp

theorem getPosts_unknown_tags_witness:
  "query_tags unknownTagQuery = Some ''nonexistent-slug''
   \<and> ''nonexistent-slug'' \<noteq> []
   \<and> list_all (\<lambda>t. tag_slug t
                    \<notin> set (map toLowerCase (map trim (split CHR '','' ''nonexistent-slug''))))
         (tagStore worldAB)
   \<and> \<not> listSkip unknownTagQuery < 0
   \<and> getPosts unknownTagQuery worldAB
       = Ok200 \<lparr>env_data = [], env_page = Some 2, env_limit = Some 10, env_total = 0,
                env_pages = Some 0\<rparr>"
proof -
  have q: "query_tags unknownTagQuery = Some ''nonexistent-slug''"
    by (simp add: unknownTagQuery_def)
  have u: "\<forall>t\<in>set (tagStore worldAB).
             tag_slug t \<notin> set (map toLowerCase (map trim (split CHR '','' ''nonexistent-slug'')))"
    unfolding split_unknown by (simp add: worldAB_def tagA_def tagB_def)
  have n: "listPage unknownTagQuery = 2" "listLimit unknownTagQuery = 10"
    "listSkip unknownTagQuery = 10"
    by (simp_all add: listSkip_def listPage_def listLimit_def unknownTagQuery_def toString_def
        numberOr_def parseInt_examples)
  from getPosts_unknown_tags [OF q _ u] n
  have "getPosts unknownTagQuery worldAB
       = Ok200 \<lparr>env_data = [], env_page = Some 2, env_limit = Some 10, env_total = 0,
                env_pages = Some 0\<rparr>"
    by simp
  with q u n show ?thesis
    by (simp add: list_all_iff)
qed

text \<open>
  The slugs of the filter are compared lower-cased: the request \<^verbatim>\<open>?tags=A\<close> finds the tag
  with the slug \<^verbatim>\<open>a\<close> and lists the post of \<open>worldAB\<close>, which has that tag.
\<close>

lemma toLowerCase_upper: "toLowerCase ''A'' = ''a''"
  by code_simp

lemma getPosts_upper_case_slug:
  "getPosts upperTagQuery worldAB
     = Ok200 \<lparr>env_data = [(postT, [tagA, tagB])], env_page = Some 1, env_limit = Some 10,
              env_total = 1, env_pages = Some 1\<rparr>"
proof -
  have f: "listFilter upperTagQuery (tagStore worldAB) = Some [0]"
    by (simp add: listFilter_def Tag_find_in_def upperTagQuery_def worldAB_def tagA_def tagB_def
        trim_examples toLowerCase_upper)
  show ?thesis
    unfolding getPosts_def f
    by (simp add: upperTagQuery_def worldAB_def Post_matches_def
        listSkip_def listPage_def listLimit_def listSortBy_def listSortOrder_def toString_def
        numberOr_def parseInt_examples sortPosts_def skipLimit_def pagesOf_def orElse_def
        populate_def postT_def tagA_def tagB_def List.map_filter_def Let_def)
qed

text \<open>
  Claim C7 as stated fails for the tag filter that is present and empty (\<^verbatim>\<open>?tags=\<close>): its one
  slug, the empty string, is the slug of no tag of \<open>worldAB\<close>, yet \<^verbatim>\<open>if (tagFilter)\<close> builds
  no filter for it and the listing returns the post of \<open>worldAB\<close>.
\<close>

theorem getPosts_empty_tags_counterexample:
  "query_tags emptyTagsQuery = Some ''''
   \<and> map trim (split CHR '','' '''') = ['''']
   \<and> '''' \<notin> set (map tag_slug (tagStore worldAB))
   \<and> getPosts emptyTagsQuery worldAB
       = Ok200 \<lparr>env_data = [(postT, [tagA, tagB])], env_page = Some 1, env_limit = Some 10,
                env_total = 1, env_pages = Some 1\<rparr>"
  by (simp add: getPosts_def listFilter_def emptyTagsQuery_def worldAB_def Post_matches_def
      listSkip_def listPage_def listLimit_def listSortBy_def listSortOrder_def toString_def
      numberOr_def parseInt_examples sortPosts_def skipLimit_def pagesOf_def orElse_def
      populate_def postT_def tagA_def tagB_def List.map_filter_def trim_def Let_def)

section \<open>Searching posts\<close>

lemma searchPosts_validation:
  "(\<exists>msg. searchPosts pcre q w = BadRequest400 msg) \<longleftrightarrow> falsy (query_q q)"
  by (auto simp add: searchPosts_def Let_def split: option.splits sum.splits)

lemma matchesHere_literal:
  "matchesHere (map Literal q) str
     \<longleftrightarrow> toLowerCase (take (length q) str) = toLowerCase q"
proof (induction q arbitrary: str)
  case Nil
  then show ?case by (simp add: toLowerCase_def)
next
  case (Cons c q)
  show ?case
  proof (cases str)
    case Nil
    then show ?thesis by (simp add: toLowerCase_def)
  next
    case (Cons d ds)
    with Cons.IH [of ds] show ?thesis
      by (auto simp add: toLowerCase_def)
  qed
qed

lemma containsIgnoreCase_Nil:
  "containsIgnoreCase [] q \<longleftrightarrow> toLowerCase [] = toLowerCase q"
  by (simp add: containsIgnoreCase_def)

lemma containsIgnoreCase_less:
  "containsIgnoreCase str q
     \<longleftrightarrow> (\<exists>i<Suc (length str). toLowerCase (take (length q) (drop i str)) = toLowerCase q)"
  unfolding containsIgnoreCase_def by (auto simp del: upt_Suc)

lemma containsIgnoreCase_Cons:
  "containsIgnoreCase (d # ds) q
     \<longleftrightarrow> toLowerCase (take (length q) (d # ds)) = toLowerCase q \<or> containsIgnoreCase ds q"
  unfolding containsIgnoreCase_less length_Cons
  by (subst Ex_less_Suc2) simp

lemma matchesSomewhere_literal:
  "matchesSomewhere (map Literal q) str \<longleftrightarrow> containsIgnoreCase str q"
proof (induction str)
  case Nil
  then show ?case
    by (simp add: matchesHere_literal containsIgnoreCase_Nil)
next
  case (Cons d ds)
  then show ?case
    by (simp add: matchesHere_literal [of q "d # ds"] containsIgnoreCase_Cons del: matchesHere.simps)
qed

text \<open>
  On a query of ASCII code units without metacharacters the search is the substring search
  of the specification.
\<close>

lemma compileRegex_literal:
  assumes "isSimplePattern query" "CHR ''.'' \<notin> set query"
  shows "compileRegex pcre query = Some (\<lambda>str. containsIgnoreCase str query)"
proof -
  from assms(2)
  have m: "map (\<lambda>c. if c = CHR ''.'' then AnyChar else Literal c) query = map Literal query"
    by (induction query) auto
  have "matchesSomewhere (map Literal query) = (\<lambda>str. containsIgnoreCase str query)"
    by (simp add: fun_eq_iff matchesSomewhere_literal)
  with assms(1) show ?thesis
    unfolding compileRegex_def m by simp
qed

lemma skipLimit_subset: "skipLimit skip limit xs = Inr ys \<Longrightarrow> set ys \<subseteq> set xs"
  by (auto simp add: skipLimit_def split: option.splits if_splits
      dest: in_set_takeD in_set_dropD)

lemma searchPosts_literal:
  assumes q: "query_q q = Some query" "query \<noteq> []"
    and l: "isSimplePattern query" "CHR ''.'' \<notin> set query"
    and ok: "searchPosts pcre q w = Ok200 env"
  shows "env_total env
           = length (filter (\<lambda>p. containsIgnoreCase (title p) query
                              \<or> containsIgnoreCase (description p) query) (postStore w))
       \<and> set (env_data env)
           \<subseteq> {p \<in> set (postStore w). containsIgnoreCase (title p) query
                              \<or> containsIgnoreCase (description p) query}"
proof -
  let ?found = "filter (\<lambda>p. containsIgnoreCase (title p) query
                              \<or> containsIgnoreCase (description p) query) (postStore w)"
  from q have s: "searchPosts pcre q w =
      (case skipLimit (searchSkip q) (searchLimitNum q) ?found of
         Inl e \<Rightarrow> ServerError500 e
       | Inr posts \<Rightarrow>
           Ok200 \<lparr>env_data = posts, env_page = searchPageNum q,
                    env_limit = searchLimitNum q, env_total = length ?found,
                    env_pages = pagesOf (length ?found) (searchLimitNum q)\<rparr>)"
    by (simp add: searchPosts_def falsy_def compileRegex_literal [OF l] Let_def)
  show ?thesis
  proof (cases "skipLimit (searchSkip q) (searchLimitNum q) ?found")
    case (Inl e)
    with s ok show ?thesis by simp
  next
    case (Inr posts)
    with s ok have "env_data env = posts" "env_total env = length ?found"
      by auto
    with skipLimit_subset [OF Inr] show ?thesis
      by auto
  qed
qed

text \<open>
  Claim C4 at the query \<^verbatim>\<open>.\<close>: the search is not a 400 and returns the post of \<open>worldAB\<close>,
  whose title \<^verbatim>\<open>T\<close> and description \<^verbatim>\<open>D\<close> do not contain the query. The query is run as a
  regular expression, in which \<^verbatim>\<open>.\<close> matches any code unit.
\<close>

theorem searchPosts_regex_dot:
  "searchPosts pcre dotQuery worldAB
     = Ok200 \<lparr>env_data = [postT], env_page = Some 1, env_limit = Some 10,
              env_total = 1, env_pages = Some 1\<rparr>
   \<and> \<not> containsIgnoreCase (title postT) ''.''
   \<and> \<not> containsIgnoreCase (description postT) ''.''"
proof -
  have c: "compileRegex pcre ''.'' = Some (matchesSomewhere [AnyChar])"
    by (simp add: compileRegex_def isSimplePattern_def)
  have n: "\<not> containsIgnoreCase ''T'' ''.''" "\<not> containsIgnoreCase ''D'' ''.''"
    by code_simp+
  have "searchPosts pcre dotQuery worldAB
     = Ok200 \<lparr>env_data = [postT], env_page = Some 1, env_limit = Some 10,
              env_total = 1, env_pages = Some 1\<rparr>"
    by (simp add: searchPosts_def dotQuery_def falsy_def c worldAB_def postT_def
        searchSkip_def searchPageNum_def searchLimitNum_def parseInt_examples numSub_def
        numMul_def skipLimit_def pagesOf_def)
  with n show ?thesis
    by (simp add: postT_def)
qed

end
